theory Spec2Isabelle
  imports Main
begin

section \<open>Data model\<close>

text \<open>
  The server keeps its data in relational tables that the models reach through a query
  builder. A table is the list of its rows, in insertion order. Identifiers, names and
  free text are strings; the identifiers used here are ASCII, so one character of a
  \<^typ>\<open>string\<close> is one code unit of the source's strings and \<^const>\<open>length\<close> is the
  source's \<^verbatim>\<open>.length\<close>. A point in time is a number (milliseconds since the epoch), a
  JSON value is its text. The \<^verbatim>\<open>duration\<close> column is only copied, never computed with.
\<close>

type_synonym timestamp = int
type_synonym json = string

text \<open>
  \<^verbatim>\<open>Appointment.Table.T\<close> (part_000, lines 81-107). The encoded appointment that the
  API receives (\<^verbatim>\<open>Appointment.EncodedT\<close>, lines 33-55) has the same columns, and the
  source casts query results to it, so one record serves for both.
\<close>

record appointment =
  a_id :: string
  a_provider_id :: "string option"
  a_clinic_id :: string
  a_patient_id :: string
  a_user_id :: string
  a_current_visit_id :: string
  a_fulfilled_visit_id :: "string option"
  a_timestamp :: timestamp
  a_duration :: int
  a_reason :: string
  a_notes :: string
  a_status :: string
  a_metadata :: json
  a_is_deleted :: bool
  a_created_at :: timestamp
  a_updated_at :: timestamp
  a_last_modified :: timestamp
  a_server_created_at :: timestamp
  a_deleted_at :: "timestamp option"

text \<open>
  The columns of a visit row that \<^verbatim>\<open>Appointment.API.save\<close> writes (part_000, lines
  190-203); the visit model itself is not part of the sources at hand.
\<close>

record visit =
  v_id :: string
  v_patient_id :: string
  v_clinic_id :: string
  v_provider_id :: string
  v_is_deleted :: bool
  v_created_at :: timestamp
  v_updated_at :: timestamp
  v_last_modified :: timestamp
  v_server_created_at :: timestamp
  v_deleted_at :: "timestamp option"
  v_metadata :: json
  v_provider_name :: string

text \<open>\<^verbatim>\<open>Clinic.Table.T\<close> (clinic.ts, lines 58-73).\<close>

record clinic =
  c_id :: string
  c_name :: "string option"
  c_is_deleted :: bool
  c_created_at :: timestamp
  c_updated_at :: timestamp
  c_last_modified :: timestamp
  c_server_created_at :: timestamp
  c_deleted_at :: "timestamp option"

text \<open>
  The columns of a user row that \<^verbatim>\<open>Clinic.softDelete\<close> reads (clinic.ts, lines 102-107).
  A user may belong to no clinic (a null \<^verbatim>\<open>clinic_id\<close>, which no comparison matches).
\<close>

record user =
  u_id :: string
  u_clinic_id :: "string option"
  u_is_deleted :: bool

record database =
  appointments :: "appointment list"
  visits :: "visit list"
  clinics :: "clinic list"
  users :: "user list"

text \<open>
  The state of the server: the database, and the number of identifiers the process has
  generated so far. The second is not part of the database: no transaction rolls it back.
\<close>

record server =
  db :: database
  uuid_calls :: nat

text \<open>
  What the models take from outside the sources at hand is a parameter. From
  \<^verbatim>\<open>@/lib/utils\<close> and \<^verbatim>\<open>uuid\<close>: the test for a well-formed identifier, the generator of
  identifiers (its result at the n-th call of the process), the normalisation of a date
  before it is cast to a timestamp, and the parsing of the metadata (followed in the
  source by \<^verbatim>\<open>JSON.stringify\<close> and the cast to \<^verbatim>\<open>jsonb\<close>). From the schema: what the
  database checks of a row it is asked to write, other than its key (casts, ranges,
  columns that must not be null, references to other tables), for the two tables that
  \<^verbatim>\<open>save\<close> writes with values of the client; it may depend on the other rows.
\<close>

record helpers =
  isValidUUID :: "string \<Rightarrow> bool"
  uuidV1 :: "nat \<Rightarrow> string"
  toSafeDateString :: "timestamp \<Rightarrow> timestamp"
  safeJSONParse :: "json \<Rightarrow> json"
  visit_constraints :: "database \<Rightarrow> visit \<Rightarrow> bool"
  appointment_constraints :: "database \<Rightarrow> appointment \<Rightarrow> bool"

datatype error =
    ClinicHasUsers string nat
  | UniqueViolation string
  | ConstraintViolation string
  | NoResultError

datatype insert_result = InsertResult nat

datatype update_result = UpdateResult nat


section \<open>The query builder\<close>

definition uuidV1_call :: "helpers \<Rightarrow> server \<Rightarrow> string \<times> server" where
  "uuidV1_call env s = (uuidV1 env (uuid_calls s), s\<lparr>uuid_calls := Suc (uuid_calls s)\<rparr>)"

text \<open>
  \<^verbatim>\<open>executeTakeFirstOrThrow\<close>: the first row of the result, an error when there is none.
\<close>

definition executeTakeFirstOrThrow :: "'a list \<Rightarrow> error + 'a" where
  "executeTakeFirstOrThrow rows = (case rows of [] \<Rightarrow> Inl NoResultError | r # _ \<Rightarrow> Inr r)"

text \<open>
  \<^verbatim>\<open>executeTakeFirst\<close>: the first row of the result, if any; \<open>None\<close> is the source's
  \<^verbatim>\<open>undefined\<close>.
\<close>

definition executeTakeFirst :: "'a list \<Rightarrow> 'a option" where
  "executeTakeFirst rows = (case rows of [] \<Rightarrow> None | r # _ \<Rightarrow> Some r)"

text \<open>
  Modelled from the spec: the key of a table (the schema is not part of the sources at
  hand). The glossary's upsert "updates an existing row on primary-key conflict", and the
  conflict target of the source is the column \<^verbatim>\<open>id\<close>: the primary key of a table is its
  \<^verbatim>\<open>id\<close>. A plain insert fails when the id of the row is taken, or when the database
  rejects the row; it returns the rows it inserted (\<^verbatim>\<open>returningAll\<close>).
\<close>

definition insert_visit :: "helpers \<Rightarrow> visit \<Rightarrow> database \<Rightarrow> error + (visit list \<times> database)" where
  "insert_visit env v d =
     (if v_id v \<in> set (map v_id (visits d)) then Inl (UniqueViolation ''visits'')
      else if \<not> visit_constraints env d v then Inl (ConstraintViolation ''visits'')
      else Inr ([v], d\<lparr>visits := visits d @ [v]\<rparr>))"

text \<open>
  The values of a new clinic are the server's own but for the name, a column that takes
  any string: the key is all that the insert can fail on.
\<close>

definition insert_clinic :: "clinic \<Rightarrow> database \<Rightarrow> error + database" where
  "insert_clinic c d =
     (if c_id c \<in> set (map c_id (clinics d)) then Inl (UniqueViolation ''clinics'')
      else Inr (d\<lparr>clinics := clinics d @ [c]\<rparr>))"

text \<open>
  The write of \<^verbatim>\<open>insertInto(...).values(row).onConflict(oc =>
  oc.column("id").doUpdateSet(...))\<close>: when a row of that id exists it is updated, from
  itself and the proposed row; otherwise the proposed row is inserted. The result counts
  the rows inserted or updated.
\<close>

definition upsert_rows ::
  "(appointment \<Rightarrow> appointment \<Rightarrow> appointment) \<Rightarrow> appointment \<Rightarrow> database
     \<Rightarrow> insert_result list \<times> database" where
  "upsert_rows upd excluded d =
     (if a_id excluded \<in> set (map a_id (appointments d))
      then ([InsertResult (length (filter (\<lambda>r. a_id r = a_id excluded) (appointments d)))],
            d\<lparr>appointments :=
                 map (\<lambda>r. if a_id r = a_id excluded then upd excluded r else r) (appointments d)\<rparr>)
      else ([InsertResult 1], d\<lparr>appointments := appointments d @ [excluded]\<rparr>))"

text \<open>
  The statement as the database runs it: it fails, and writes nothing, when the database
  rejects the proposed row; a taken id is no failure, it is the conflict that the
  statement handles.
\<close>

definition insert_on_conflict_id ::
  "helpers \<Rightarrow> (appointment \<Rightarrow> appointment \<Rightarrow> appointment) \<Rightarrow> appointment \<Rightarrow> database
     \<Rightarrow> error + (insert_result list \<times> database)" where
  "insert_on_conflict_id env upd excluded d =
     (if \<not> appointment_constraints env d excluded then Inl (ConstraintViolation ''appointments'')
      else Inr (upsert_rows upd excluded d))"

text \<open>
  \<^verbatim>\<open>db.transaction().execute(body)\<close>: when the body throws, the database is as it was
  before the transaction, whatever the body had written, and the error goes to the caller.
\<close>

definition transaction ::
  "(server \<Rightarrow> (error + 'a) \<times> server) \<Rightarrow> server \<Rightarrow> (error + 'a) \<times> server" where
  "transaction body s =
     (case body s of
        (Inl e, s') \<Rightarrow> (Inl e, s'\<lparr>db := db s\<rparr>)
      | (Inr r, s') \<Rightarrow> (Inr r, s'))"


section \<open>Appointments\<close>

text \<open>\<^verbatim>\<open>Appointment.API.getAll\<close> (part_000, lines 115-123).\<close>

definition Appointment_getAll :: "server \<Rightarrow> appointment list" where
  "Appointment_getAll s = filter (\<lambda>r. a_is_deleted r = False) (appointments (db s))"

text \<open>\<^verbatim>\<open>Appointment.API.getById\<close> (lines 125-134).\<close>

definition Appointment_getById :: "string \<Rightarrow> server \<Rightarrow> appointment option" where
  "Appointment_getById ident s =
     executeTakeFirst
       (filter (\<lambda>r. a_is_deleted r = False) (filter (\<lambda>r. a_id r = ident) (appointments (db s))))"

text \<open>
  The visit id of \<^verbatim>\<open>save\<close> (lines 181-185): the appointment's own when it is non-empty
  and well-formed, a generated one otherwise.
\<close>

definition save_visitId :: "helpers \<Rightarrow> appointment \<Rightarrow> server \<Rightarrow> string \<times> server" where
  "save_visitId env appointment s =
     (if a_current_visit_id appointment \<noteq> [] \<and> isValidUUID env (a_current_visit_id appointment)
      then (a_current_visit_id appointment, s)
      else uuidV1_call env s)"

text \<open>The values of the visit row (lines 190-203); \<^verbatim>\<open>now()\<close> is the time of the transaction.\<close>

definition visit_values :: "timestamp \<Rightarrow> string \<Rightarrow> appointment \<Rightarrow> string \<Rightarrow> visit" where
  "visit_values now visitId appointment currentUserName =
     \<lparr> v_id = visitId,
       v_patient_id = a_patient_id appointment,
       v_clinic_id = a_clinic_id appointment,
       v_provider_id = a_user_id appointment,
       v_is_deleted = False,
       v_created_at = now,
       v_updated_at = now,
       v_last_modified = now,
       v_server_created_at = now,
       v_deleted_at = None,
       v_metadata = ''{}'',
       v_provider_name = currentUserName \<rparr>"

text \<open>
  The id of the appointment row (line 214), \<^verbatim>\<open>id || appointment.id || uuidV1()\<close>: the
  first of the three that is not null and not empty; the generator is called only when
  the first two are.
\<close>

definition save_id :: "helpers \<Rightarrow> string option \<Rightarrow> appointment \<Rightarrow> server \<Rightarrow> string \<times> server" where
  "save_id env ident appointment s =
     (case ident of
        Some i \<Rightarrow>
          if i \<noteq> [] then (i, s)
          else if a_id appointment \<noteq> [] then (a_id appointment, s)
          else uuidV1_call env s
      | None \<Rightarrow>
          if a_id appointment \<noteq> [] then (a_id appointment, s)
          else uuidV1_call env s)"

text \<open>The values of the appointment row (lines 213-239).\<close>

definition appointment_values ::
  "helpers \<Rightarrow> timestamp \<Rightarrow> string \<Rightarrow> string \<Rightarrow> appointment \<Rightarrow> appointment" where
  "appointment_values env now rowId visitId appointment =
     \<lparr> a_id = rowId,
       a_provider_id = a_provider_id appointment,
       a_clinic_id = a_clinic_id appointment,
       a_patient_id = a_patient_id appointment,
       a_user_id = a_user_id appointment,
       a_current_visit_id = visitId,
       a_fulfilled_visit_id = a_fulfilled_visit_id appointment,
       a_timestamp = a_timestamp appointment,
       a_duration = a_duration appointment,
       a_reason = a_reason appointment,
       a_notes = a_notes appointment,
       a_status = a_status appointment,
       a_metadata = safeJSONParse env (a_metadata appointment),
       a_is_deleted = False,
       a_created_at = toSafeDateString env (a_created_at appointment),
       a_updated_at = toSafeDateString env (a_updated_at appointment),
       a_last_modified = now,
       a_server_created_at = now,
       a_deleted_at = None \<rparr>"

text \<open>
  The update on conflict (lines 241-266), of the stored row \<open>old\<close> from the proposed row
  \<open>excluded\<close> and the appointment: every column but \<^verbatim>\<open>server_created_at\<close> is assigned.
\<close>

definition doUpdateSet ::
  "helpers \<Rightarrow> timestamp \<Rightarrow> appointment \<Rightarrow> appointment \<Rightarrow> appointment \<Rightarrow> appointment" where
  "doUpdateSet env now appointment excluded old =
     old\<lparr> a_id := a_id excluded,
          a_clinic_id := a_clinic_id appointment,
          a_patient_id := a_patient_id excluded,
          a_user_id := a_user_id excluded,
          a_current_visit_id := a_current_visit_id excluded,
          a_created_at := toSafeDateString env (a_created_at appointment),
          a_updated_at := toSafeDateString env (a_updated_at appointment),
          a_last_modified := now,
          a_deleted_at := a_deleted_at excluded,
          a_metadata := a_metadata excluded,
          a_duration := a_duration appointment,
          a_reason := a_reason appointment,
          a_notes := a_notes appointment,
          a_status := a_status appointment,
          a_fulfilled_visit_id := a_fulfilled_visit_id appointment,
          a_timestamp := a_timestamp appointment,
          a_is_deleted := False,
          a_provider_id := a_provider_id appointment \<rparr>"

text \<open>
  The body of the transaction of \<^verbatim>\<open>save\<close> (lines 180-271): the visit id; the visit row,
  when the appointment's visit id is not well-formed, whose stored id becomes the visit
  id; then the appointment row. An error of either statement ends the body, with what it
  has written so far.
\<close>

definition save_trx ::
  "helpers \<Rightarrow> timestamp \<Rightarrow> string option \<Rightarrow> appointment \<Rightarrow> string \<Rightarrow> server
     \<Rightarrow> (error + insert_result) \<times> server" where
  "save_trx env now ident appointment currentUserName s =
     (case save_visitId env appointment s of (visitId, s1) \<Rightarrow>
      (case
         (if \<not> isValidUUID env (a_current_visit_id appointment) then
            (case insert_visit env (visit_values now visitId appointment currentUserName) (db s1) of
               Inl e \<Rightarrow> Inl e
             | Inr (rows, d) \<Rightarrow>
                 (case executeTakeFirstOrThrow rows of
                    Inl e \<Rightarrow> Inl e
                  | Inr visit \<Rightarrow> Inr (v_id visit, s1\<lparr>db := d\<rparr>)))
          else Inr (visitId, s1))
       of
         Inl e \<Rightarrow> (Inl e, s1)
       | Inr (visitId', s2) \<Rightarrow>
           (case save_id env ident appointment s2 of (rowId, s3) \<Rightarrow>
            (case insert_on_conflict_id env (doUpdateSet env now appointment)
                    (appointment_values env now rowId visitId' appointment) (db s3) of
               Inl e \<Rightarrow> (Inl e, s3)
             | Inr (rows, d) \<Rightarrow>
                 (case executeTakeFirstOrThrow rows of
                    Inl e \<Rightarrow> (Inl e, s3\<lparr>db := d\<rparr>)
                  | Inr res \<Rightarrow> (Inr res, s3\<lparr>db := d\<rparr>))))))"

text \<open>\<^verbatim>\<open>Appointment.API.save\<close> (lines 174-273).\<close>

definition Appointment_save ::
  "helpers \<Rightarrow> timestamp \<Rightarrow> string option \<Rightarrow> appointment \<Rightarrow> string \<Rightarrow> server
     \<Rightarrow> (error + insert_result) \<times> server" where
  "Appointment_save env now ident appointment currentUserName =
     transaction (save_trx env now ident appointment currentUserName)"

text \<open>\<^verbatim>\<open>Appointment.API.softDelete\<close> (lines 275-286).\<close>

definition Appointment_softDelete ::
  "timestamp \<Rightarrow> string \<Rightarrow> server \<Rightarrow> update_result list \<times> server" where
  "Appointment_softDelete now ident s =
     ([UpdateResult (length (filter (\<lambda>r. a_id r = ident) (appointments (db s))))],
      s\<lparr>db := (db s)\<lparr>appointments :=
           map (\<lambda>r. if a_id r = ident
                    then r\<lparr> a_is_deleted := True,
                            a_deleted_at := Some now,
                            a_updated_at := now,
                            a_last_modified := now \<rparr>
                    else r)
               (appointments (db s))\<rparr>\<rparr>)"

text \<open>
  \<^verbatim>\<open>Appointment.Sync.upsertFromDelta\<close> (lines 290-294): the id handed to \<^verbatim>\<open>save\<close> is
  \<^verbatim>\<open>delta.id || uuidV1()\<close>, computed before the call.
\<close>

definition upsertFromDelta ::
  "helpers \<Rightarrow> timestamp \<Rightarrow> appointment \<Rightarrow> server \<Rightarrow> (error + insert_result) \<times> server" where
  "upsertFromDelta env now delta s =
     (case (if a_id delta \<noteq> [] then (a_id delta, s) else uuidV1_call env s) of
        (ident, s1) \<Rightarrow> Appointment_save env now (Some ident) delta [] s1)"

text \<open>\<^verbatim>\<open>Appointment.Sync.deleteFromDelta\<close> (lines 296-298).\<close>

definition deleteFromDelta :: "timestamp \<Rightarrow> string \<Rightarrow> server \<Rightarrow> update_result list \<times> server" where
  "deleteFromDelta now ident s = Appointment_softDelete now ident s"


section \<open>Clinics\<close>

text \<open>\<^verbatim>\<open>Clinic.getAll\<close> (clinic.ts, lines 83-91).\<close>

definition Clinic_getAll :: "server \<Rightarrow> clinic list" where
  "Clinic_getAll s = filter (\<lambda>c. c_is_deleted c = False) (clinics (db s))"

text \<open>
  \<^verbatim>\<open>Clinic.softDelete\<close> (lines 100-125); \<open>now\<close> is the clock of the server process
  (\<^verbatim>\<open>new Date()\<close>).
\<close>

definition Clinic_softDelete :: "timestamp \<Rightarrow> string \<Rightarrow> server \<Rightarrow> (error + unit) \<times> server" where
  "Clinic_softDelete now ident s =
     (let usersInClinic =
            filter (\<lambda>u. u_is_deleted u = False)
              (filter (\<lambda>u. u_clinic_id u = Some ident) (users (db s)))
      in if length usersInClinic > 0
         then (Inl (ClinicHasUsers ident (length usersInClinic)), s)
         else (Inr (),
               s\<lparr>db := (db s)\<lparr>clinics :=
                    map (\<lambda>c. if c_id c = ident
                             then c\<lparr> c_is_deleted := True, c_deleted_at := Some now \<rparr>
                             else c)
                        (clinics (db s))\<rparr>\<rparr>))"

text \<open>The values of a new clinic row (lines 139-148).\<close>

definition clinic_values :: "timestamp \<Rightarrow> string \<Rightarrow> string \<Rightarrow> clinic" where
  "clinic_values now clinicId name =
     \<lparr> c_id = clinicId,
       c_name = Some name,
       c_is_deleted = False,
       c_created_at = now,
       c_updated_at = now,
       c_last_modified = now,
       c_server_created_at = now,
       c_deleted_at = None \<rparr>"

text \<open>
  \<^verbatim>\<open>Clinic.save\<close> (lines 133-160). The id is optional: \<open>None\<close> is the source's
  \<^verbatim>\<open>undefined\<close>, the one value of the parameter's type that is not a string.
\<close>

definition Clinic_save ::
  "helpers \<Rightarrow> timestamp \<Rightarrow> string option \<Rightarrow> string \<Rightarrow> server \<Rightarrow> (error + unit) \<times> server" where
  "Clinic_save env now ident name s =
     (if (case ident of None \<Rightarrow> True | Some i \<Rightarrow> length i \<le> 5) then
        (case uuidV1_call env s of (clinicId, s1) \<Rightarrow>
           (case insert_clinic (clinic_values now clinicId name) (db s1) of
              Inl e \<Rightarrow> (Inl e, s1)
            | Inr d \<Rightarrow> (Inr (), s1\<lparr>db := d\<rparr>)))
      else
        (Inr (),
         s\<lparr>db := (db s)\<lparr>clinics :=
              map (\<lambda>c. if Some (c_id c) = ident then c\<lparr> c_name := Some name \<rparr> else c)
                  (clinics (db s))\<rparr>\<rparr>))"


section \<open>Notions used in the statements\<close>

text \<open>
  The id of the appointment row that a call of \<^verbatim>\<open>save\<close> writes, and the id of its visit:
  what \<^const>\<open>save_id\<close> and \<^const>\<open>save_visitId\<close> compute, in the order of the source.
\<close>

definition save_visit :: "helpers \<Rightarrow> appointment \<Rightarrow> server \<Rightarrow> string" where
  "save_visit env a s = fst (save_visitId env a s)"

definition save_target :: "helpers \<Rightarrow> string option \<Rightarrow> appointment \<Rightarrow> server \<Rightarrow> string" where
  "save_target env ident a s = fst (save_id env ident a (snd (save_visitId env a s)))"

text \<open>
  The insert of the visit row goes through: no visit is needed, or the generated id is
  not the id of a stored visit and the database accepts the row.
\<close>

definition visit_step_ok ::
  "helpers \<Rightarrow> timestamp \<Rightarrow> appointment \<Rightarrow> string \<Rightarrow> server \<Rightarrow> bool" where
  "visit_step_ok env now a name s =
     (isValidUUID env (a_current_visit_id a) \<or>
      (uuidV1 env (uuid_calls s) \<notin> set (map v_id (visits (db s))) \<and>
       visit_constraints env (db s) (visit_values now (uuidV1 env (uuid_calls s)) a name)))"

text \<open>The database once the visit step is through.\<close>

definition db_after_visit ::
  "helpers \<Rightarrow> timestamp \<Rightarrow> appointment \<Rightarrow> string \<Rightarrow> server \<Rightarrow> database" where
  "db_after_visit env now a name s =
     (if isValidUUID env (a_current_visit_id a) then db s
      else (db s)\<lparr>visits := visits (db s) @ [visit_values now (save_visit env a s) a name]\<rparr>)"

text \<open>The database, with the visit in it, accepts the appointment row that \<^verbatim>\<open>save\<close> proposes.\<close>

definition appointment_step_ok ::
  "helpers \<Rightarrow> timestamp \<Rightarrow> string option \<Rightarrow> appointment \<Rightarrow> string \<Rightarrow> server \<Rightarrow> bool" where
  "appointment_step_ok env now ident a name s =
     appointment_constraints env (db_after_visit env now a name s)
       (appointment_values env now (save_target env ident a s) (save_visit env a s) a)"

text \<open>The ids of the appointments are pairwise different: the primary key of the table.\<close>

definition appointments_keyed :: "server \<Rightarrow> bool" where
  "appointments_keyed s = distinct (map a_id (appointments (db s)))"


text \<open>The content columns of a stored row are those of a delta.\<close>

definition content_matches :: "appointment \<Rightarrow> appointment \<Rightarrow> bool" where
  "content_matches row delta =
     (a_clinic_id row = a_clinic_id delta \<and>
      a_patient_id row = a_patient_id delta \<and>
      a_user_id row = a_user_id delta \<and>
      a_fulfilled_visit_id row = a_fulfilled_visit_id delta \<and>
      a_timestamp row = a_timestamp delta \<and>
      a_duration row = a_duration delta \<and>
      a_reason row = a_reason delta \<and>
      a_notes row = a_notes delta \<and>
      a_status row = a_status delta \<and>
      a_metadata row = a_metadata delta \<and>
      a_provider_id row = a_provider_id delta)"


text \<open>The users that keep a clinic from being deleted.\<close>

definition clinic_users :: "string \<Rightarrow> server \<Rightarrow> user list" where
  "clinic_users ident s =
     filter (\<lambda>u. u_clinic_id u = Some ident \<and> \<not> u_is_deleted u) (users (db s))"

text \<open>The condition under which \<^verbatim>\<open>Clinic.save\<close> inserts (clinic.ts, line 135).\<close>

definition creates_clinic :: "string option \<Rightarrow> bool" where
  "creates_clinic ident = (case ident of None \<Rightarrow> True | Some i \<Rightarrow> length i \<le> 5)"


section \<open>Example data\<close>

text \<open>
  A schema for the examples: a visit refers to a stored clinic, an appointment to a stored
  visit, and a duration is not negative.
\<close>

definition ex_helpers :: helpers where
  "ex_helpers =
     \<lparr> isValidUUID = (\<lambda>i. length i = 36),
       uuidV1 = (\<lambda>n. ''00000000-0000-1000-8000-00000000000'' @
                     [if n = 0 then CHR ''0'' else if n = 1 then CHR ''1'' else CHR ''2'']),
       toSafeDateString = (\<lambda>t. t),
       safeJSONParse = (\<lambda>j. j),
       visit_constraints = (\<lambda>d v. v_clinic_id v \<in> set (map c_id (clinics d))),
       appointment_constraints =
         (\<lambda>d r. a_current_visit_id r \<in> set (map v_id (visits d)) \<and> 0 \<le> a_duration r) \<rparr>"

definition ex_appointment :: appointment where
  "ex_appointment =
     \<lparr> a_id = ''appt-1'',
       a_provider_id = Some ''prov-2'',
       a_clinic_id = ''clinic-2'',
       a_patient_id = ''patient-2'',
       a_user_id = ''user-2'',
       a_current_visit_id = [],
       a_fulfilled_visit_id = None,
       a_timestamp = 5000,
       a_duration = 30,
       a_reason = ''checkup'',
       a_notes = ''bring records'',
       a_status = ''confirmed'',
       a_metadata = ''{}'',
       a_is_deleted = False,
       a_created_at = 900,
       a_updated_at = 950,
       a_last_modified = 950,
       a_server_created_at = 900,
       a_deleted_at = None \<rparr>"

definition ex_stored :: appointment where
  "ex_stored =
     \<lparr> a_id = ''appt-1'',
       a_provider_id = Some ''prov-1'',
       a_clinic_id = ''clinic-1'',
       a_patient_id = ''patient-1'',
       a_user_id = ''user-1'',
       a_current_visit_id = ''visit-1'',
       a_fulfilled_visit_id = Some ''visit-0'',
       a_timestamp = 4000,
       a_duration = 15,
       a_reason = ''fever'',
       a_notes = [],
       a_status = ''pending'',
       a_metadata = ''null'',
       a_is_deleted = True,
       a_created_at = 100,
       a_updated_at = 200,
       a_last_modified = 300,
       a_server_created_at = 100,
       a_deleted_at = Some 300 \<rparr>"

text \<open>An appointment that the example schema rejects.\<close>

definition ex_rejected :: appointment where
  "ex_rejected = ex_appointment\<lparr> a_duration := - 5 \<rparr>"

definition ex_clinic :: "string \<Rightarrow> clinic" where
  "ex_clinic i =
     \<lparr> c_id = i,
       c_name = Some ''Old name'',
       c_is_deleted = False,
       c_created_at = 10,
       c_updated_at = 10,
       c_last_modified = 10,
       c_server_created_at = 10,
       c_deleted_at = None \<rparr>"

definition ex_server :: server where
  "ex_server =
     \<lparr> db = \<lparr> appointments = [ex_stored],
              visits = [],
              clinics = [ex_clinic ''clinic-1'', ex_clinic ''clinic-2''],
              users = [\<lparr> u_id = ''user-1'', u_clinic_id = Some ''clinic-1'', u_is_deleted = False \<rparr>,
                       \<lparr> u_id = ''user-2'', u_clinic_id = Some ''clinic-2'', u_is_deleted = True \<rparr>] \<rparr>,
       uuid_calls = 0 \<rparr>"


definition ex_live :: server where
  "ex_live = ex_server\<lparr>db := (db ex_server)\<lparr>appointments := [ex_appointment]\<rparr>\<rparr>"

definition ex_short :: server where
  "ex_short = ex_server\<lparr>db := (db ex_server)\<lparr>clinics := [ex_clinic ''c-1'', ex_clinic ''clinic-2'']\<rparr>\<rparr>"


section \<open>Properties of the query builder and of \<open>save\<close>\<close>

lemma v_id_visit_values: "v_id (visit_values now i a n) = i"
  by (simp add: visit_values_def)

lemma a_id_appointment_values: "a_id (appointment_values env now i v a) = i"
  by (simp add: appointment_values_def)

lemma db_save_id: "db (snd (save_id env ident a s)) = db s"
  by (simp add: save_id_def uuidV1_call_def split: option.splits)

lemma db_save_visitId: "db (snd (save_visitId env a s)) = db s"
  by (simp add: save_visitId_def uuidV1_call_def)

lemma save_visitId_invalid:
  "\<not> isValidUUID env (a_current_visit_id a) \<Longrightarrow>
   save_visitId env a s = (uuidV1 env (uuid_calls s), s\<lparr>uuid_calls := Suc (uuid_calls s)\<rparr>)"
  by (simp add: save_visitId_def uuidV1_call_def)

lemma save_id_db_indep:
  "save_id env ident a (s\<lparr>db := d\<rparr>) =
     (fst (save_id env ident a s), (snd (save_id env ident a s))\<lparr>db := d\<rparr>)"
  by (simp add: save_id_def uuidV1_call_def split: option.splits)

lemma upsert_rows_nonempty:
  "executeTakeFirstOrThrow (fst (upsert_rows upd ex d)) = Inr (hd (fst (upsert_rows upd ex d)))"
  by (simp add: upsert_rows_def executeTakeFirstOrThrow_def)

text \<open>The body stops at the visit.\<close>

lemma save_trx_visit_fails:
  assumes "\<not> visit_step_ok env now a name s"
  shows "save_trx env now ident a name s =
     (Inl (if uuidV1 env (uuid_calls s) \<in> set (map v_id (visits (db s)))
           then UniqueViolation ''visits'' else ConstraintViolation ''visits''),
      s\<lparr>uuid_calls := Suc (uuid_calls s)\<rparr>)"
proof -
  from assms have inv: "\<not> isValidUUID env (a_current_visit_id a)"
    by (simp add: visit_step_ok_def)
  from assms inv have rej:
    "uuidV1 env (uuid_calls s) \<notin> set (map v_id (visits (db s))) \<Longrightarrow>
     \<not> visit_constraints env (db s) (visit_values now (uuidV1 env (uuid_calls s)) a name)"
    by (simp add: visit_step_ok_def)
  show ?thesis
  proof (cases "uuidV1 env (uuid_calls s) \<in> set (map v_id (visits (db s)))")
    case True
    with inv show ?thesis
      by (simp add: save_trx_def save_visitId_invalid insert_visit_def v_id_visit_values)
  next
    case False
    with inv rej [OF False] show ?thesis
      by (simp add: save_trx_def save_visitId_invalid insert_visit_def v_id_visit_values)
  qed
qed

text \<open>The body past the visit: the appointment row is written, or rejected.\<close>

lemma save_trx_after_visit:
  assumes "visit_step_ok env now a name s"
  shows "save_trx env now ident a name s =
     (if appointment_step_ok env now ident a name s
      then (Inr (hd (fst (upsert_rows (doUpdateSet env now a)
               (appointment_values env now (save_target env ident a s) (save_visit env a s) a)
               (db_after_visit env now a name s)))),
            (snd (save_id env ident a (snd (save_visitId env a s))))
              \<lparr>db := snd (upsert_rows (doUpdateSet env now a)
                 (appointment_values env now (save_target env ident a s) (save_visit env a s) a)
                 (db_after_visit env now a name s))\<rparr>)
      else (Inl (ConstraintViolation ''appointments''),
            (snd (save_id env ident a (snd (save_visitId env a s))))
              \<lparr>db := db_after_visit env now a name s\<rparr>))"
proof (cases "isValidUUID env (a_current_visit_id a)")
  case True
  have same: "x\<lparr>db := db s\<rparr> = x" if "db x = db s" for x :: server
    using that by (cases x) simp
  have keep: "(snd (save_id env ident a (snd (save_visitId env a s))))\<lparr>db := db s\<rparr> =
      snd (save_id env ident a (snd (save_visitId env a s)))"
    by (rule same) (simp add: db_save_id db_save_visitId)
  from True show ?thesis
    by (simp add: save_trx_def case_prod_beta upsert_rows_nonempty save_target_def
        save_visit_def db_save_id db_save_visitId db_after_visit_def appointment_step_ok_def
        insert_on_conflict_id_def keep)
next
  case False
  with assms have fresh: "uuidV1 env (uuid_calls s) \<notin> set (map v_id (visits (db s)))"
    and acc: "visit_constraints env (db s) (visit_values now (uuidV1 env (uuid_calls s)) a name)"
    by (simp_all add: visit_step_ok_def)
  from False fresh acc show ?thesis
    by (simp add: save_trx_def save_visitId_invalid insert_visit_def v_id_visit_values
        executeTakeFirstOrThrow_def case_prod_beta
        upsert_rows_nonempty [unfolded executeTakeFirstOrThrow_def]
        save_target_def save_visit_def save_id_db_indep db_after_visit_def
        appointment_step_ok_def insert_on_conflict_id_def)
qed

lemma save_fail_visit:
  assumes "\<not> visit_step_ok env now a name s"
  shows "Appointment_save env now ident a name s =
     (Inl (if uuidV1 env (uuid_calls s) \<in> set (map v_id (visits (db s)))
           then UniqueViolation ''visits'' else ConstraintViolation ''visits''),
      s\<lparr>uuid_calls := Suc (uuid_calls s)\<rparr>)"
proof -
  have same: "x\<lparr>db := db x\<rparr> = x" for x :: server
    by (cases x) simp
  show ?thesis
    by (simp add: Appointment_save_def transaction_def save_trx_visit_fails [OF assms] same)
qed

lemma save_fail_appointment:
  assumes "visit_step_ok env now a name s" and "\<not> appointment_step_ok env now ident a name s"
  shows "Appointment_save env now ident a name s =
     (Inl (ConstraintViolation ''appointments''),
      (snd (save_id env ident a (snd (save_visitId env a s))))\<lparr>db := db s\<rparr>)"
    and "db (snd (save_trx env now ident a name s)) = db_after_visit env now a name s"
  using assms(2)
  by (simp_all add: Appointment_save_def transaction_def save_trx_after_visit [OF assms(1)])

lemma save_ok:
  assumes "visit_step_ok env now a name s" and "appointment_step_ok env now ident a name s"
  shows "Appointment_save env now ident a name s =
     (Inr (hd (fst (upsert_rows (doUpdateSet env now a)
             (appointment_values env now (save_target env ident a s) (save_visit env a s) a)
             (db_after_visit env now a name s)))),
      (snd (save_id env ident a (snd (save_visitId env a s))))
        \<lparr>db := snd (upsert_rows (doUpdateSet env now a)
             (appointment_values env now (save_target env ident a s) (save_visit env a s) a)
             (db_after_visit env now a name s))\<rparr>)"
  using assms(2)
  by (simp add: Appointment_save_def transaction_def save_trx_after_visit [OF assms(1)])

lemma save_succeeds_iff:
  "(\<exists>r. fst (Appointment_save env now ident a name s) = Inr r) =
   (visit_step_ok env now a name s \<and> appointment_step_ok env now ident a name s)"
proof (cases "visit_step_ok env now a name s")
  case False
  then show ?thesis by (simp add: save_fail_visit)
next
  case True
  show ?thesis
  proof (cases "appointment_step_ok env now ident a name s")
    case False
    with True show ?thesis by (simp add: save_fail_appointment(1))
  next
    case ok: True
    with True show ?thesis by (simp add: save_ok)
  qed
qed

lemma save_Inr_ok:
  assumes "Appointment_save env now ident a name s = (Inr r, s')"
  shows "visit_step_ok env now a name s" and "appointment_step_ok env now ident a name s"
  using assms save_succeeds_iff [of env now ident a name s] by auto

lemma save_failure_db:
  assumes "\<not> (visit_step_ok env now a name s \<and> appointment_step_ok env now ident a name s)"
  shows "db (snd (Appointment_save env now ident a name s)) = db s"
proof (cases "visit_step_ok env now a name s")
  case False
  then show ?thesis by (simp add: save_fail_visit)
next
  case True
  with assms have "\<not> appointment_step_ok env now ident a name s" by simp
  with True show ?thesis by (simp add: save_fail_appointment(1))
qed

lemma upsert_frame:
  "visits (snd (upsert_rows upd ex d)) = visits d"
  "clinics (snd (upsert_rows upd ex d)) = clinics d"
  "users (snd (upsert_rows upd ex d)) = users d"
  by (simp_all add: upsert_rows_def)

lemma upsert_appointments:
  "appointments (snd (upsert_rows upd ex d)) =
     (if a_id ex \<in> set (map a_id (appointments d))
      then map (\<lambda>r. if a_id r = a_id ex then upd ex r else r) (appointments d)
      else appointments d @ [ex])"
  by (simp add: upsert_rows_def)

lemma upsert_result:
  "fst (upsert_rows upd ex d) =
     [InsertResult (if a_id ex \<in> set (map a_id (appointments d))
        then length (filter (\<lambda>r. a_id r = a_id ex) (appointments d)) else 1)]"
  by (simp add: upsert_rows_def)

lemma a_id_doUpdateSet: "a_id (doUpdateSet env now a ex old) = a_id ex"
  by (simp add: doUpdateSet_def)

lemma map_upd_others:
  assumes "\<And>r. a_id r = i \<Longrightarrow> a_id (f r) = i"
  shows "filter (\<lambda>r. a_id r \<noteq> i) (map (\<lambda>r. if a_id r = i then f r else r) rows) =
         filter (\<lambda>r. a_id r \<noteq> i) rows"
  using assms by (induction rows) auto

lemma map_upd_ids:
  assumes "\<And>r. a_id r = i \<Longrightarrow> a_id (f r) = i"
  shows "map a_id (map (\<lambda>r. if a_id r = i then f r else r) rows) = map a_id rows"
  using assms by (induction rows) auto

lemma upsert_ids:
  "map a_id (appointments (snd (upsert_rows (doUpdateSet env now a) ex d))) =
     (if a_id ex \<in> set (map a_id (appointments d)) then map a_id (appointments d)
      else map a_id (appointments d) @ [a_id ex])"
  by (simp add: upsert_appointments map_upd_ids a_id_doUpdateSet del: map_map)

lemma upsert_others:
  "filter (\<lambda>r. a_id r \<noteq> a_id ex)
      (appointments (snd (upsert_rows (doUpdateSet env now a) ex d))) =
   filter (\<lambda>r. a_id r \<noteq> a_id ex) (appointments d)"
  by (simp add: upsert_appointments map_upd_others a_id_doUpdateSet)

lemma count_ids:
  "length (filter (\<lambda>r. a_id r = i) rows) = count_list (map a_id rows) i"
  by (induction rows) auto

lemma upsert_target_row:
  assumes "row \<in> set (appointments (snd (upsert_rows (doUpdateSet env now a) ex d)))"
    and "a_id row = a_id ex"
  shows "row = ex \<or> (\<exists>old \<in> set (appointments d). row = doUpdateSet env now a ex old)"
proof (cases "a_id ex \<in> set (map a_id (appointments d))")
  case True
  with assms(1) obtain old where old: "old \<in> set (appointments d)"
    and row: "row = (if a_id old = a_id ex then doUpdateSet env now a ex old else old)"
    by (auto simp: upsert_appointments)
  show ?thesis
  proof (cases "a_id old = a_id ex")
    case True
    with old row show ?thesis by auto
  next
    case False
    with row assms(2) show ?thesis by simp
  qed
next
  case False
  with assms(1) have "row = ex \<or> row \<in> set (appointments d)"
    by (auto simp: upsert_appointments)
  moreover have "row \<notin> set (appointments d)"
  proof
    assume "row \<in> set (appointments d)"
    then have "a_id row \<in> set (map a_id (appointments d))" by simp
    with False assms(2) show False by simp
  qed
  ultimately show ?thesis by simp
qed

text \<open>
  The update on conflict leaves of the stored row its \<^verbatim>\<open>server_created_at\<close> and nothing
  else.
\<close>

lemma doUpdateSet_values:
  "doUpdateSet env now a (appointment_values env now i v a) old =
     (appointment_values env now i v a)\<lparr> a_server_created_at := a_server_created_at old \<rparr>"
  by (cases old) (simp add: doUpdateSet_def appointment_values_def)

lemma written_row_fields:
  assumes "row = appointment_values env now i v a \<or>
           row = doUpdateSet env now a (appointment_values env now i v a) old"
  shows "a_id row = i"
    and "a_provider_id row = a_provider_id a"
    and "a_clinic_id row = a_clinic_id a"
    and "a_patient_id row = a_patient_id a"
    and "a_user_id row = a_user_id a"
    and "a_current_visit_id row = v"
    and "a_fulfilled_visit_id row = a_fulfilled_visit_id a"
    and "a_timestamp row = a_timestamp a"
    and "a_duration row = a_duration a"
    and "a_reason row = a_reason a"
    and "a_notes row = a_notes a"
    and "a_status row = a_status a"
    and "a_metadata row = safeJSONParse env (a_metadata a)"
    and "a_is_deleted row = False"
    and "a_last_modified row = now"
    and "a_deleted_at row = None"
  using assms by (auto simp: appointment_values_def doUpdateSet_def)

lemma save_db:
  assumes "visit_step_ok env now a name s" and "appointment_step_ok env now ident a name s"
  shows "db (snd (Appointment_save env now ident a name s)) =
     snd (upsert_rows (doUpdateSet env now a)
             (appointment_values env now (save_target env ident a s) (save_visit env a s) a)
             (db_after_visit env now a name s))"
  by (simp add: save_ok [OF assms])

lemma appointments_db_after_visit:
  "appointments (db_after_visit env now a name s) = appointments (db s)"
  by (simp add: db_after_visit_def)

lemma save_appointments:
  assumes "visit_step_ok env now a name s" and "appointment_step_ok env now ident a name s"
  shows "appointments (db (snd (Appointment_save env now ident a name s))) =
     (if save_target env ident a s \<in> set (map a_id (appointments (db s)))
      then map (\<lambda>r. if a_id r = save_target env ident a s
                    then doUpdateSet env now a
                           (appointment_values env now (save_target env ident a s)
                              (save_visit env a s) a) r
                    else r)
               (appointments (db s))
      else appointments (db s) @
             [appointment_values env now (save_target env ident a s) (save_visit env a s) a])"
  by (simp add: save_db [OF assms] upsert_appointments a_id_appointment_values
      appointments_db_after_visit)

lemma save_row:
  assumes v: "visit_step_ok env now a name s"
    and ap: "appointment_step_ok env now ident a name s"
    and row: "row \<in> set (appointments (db (snd (Appointment_save env now ident a name s))))"
    and ident: "a_id row = save_target env ident a s"
  shows "row = appointment_values env now (save_target env ident a s) (save_visit env a s) a \<or>
         (\<exists>old \<in> set (appointments (db s)).
            row = doUpdateSet env now a
                    (appointment_values env now (save_target env ident a s) (save_visit env a s) a) old)"
  using upsert_target_row [of row env now a
      "appointment_values env now (save_target env ident a s) (save_visit env a s) a"
      "db_after_visit env now a name s"] row ident
  by (simp add: save_db [OF v ap] a_id_appointment_values appointments_db_after_visit)

lemma save_visit_valid:
  assumes "\<not> isValidUUID env []" and "isValidUUID env (a_current_visit_id a)"
  shows "save_visit env a s = a_current_visit_id a"
proof -
  from assms have "a_current_visit_id a \<noteq> []" by auto
  with assms(2) show ?thesis by (simp add: save_visit_def save_visitId_def)
qed

lemma save_visit_invalid:
  "\<not> isValidUUID env (a_current_visit_id a) \<Longrightarrow> save_visit env a s = uuidV1 env (uuid_calls s)"
  by (simp add: save_visit_def save_visitId_invalid)

lemma save_frame:
  assumes "visit_step_ok env now a name s" and "appointment_step_ok env now ident a name s"
  shows "clinics (db (snd (Appointment_save env now ident a name s))) = clinics (db s)"
    and "users (db (snd (Appointment_save env now ident a name s))) = users (db s)"
    and "visits (db (snd (Appointment_save env now ident a name s))) =
          (if isValidUUID env (a_current_visit_id a) then visits (db s)
           else visits (db s) @ [visit_values now (save_visit env a s) a name])"
  by (simp_all add: save_db [OF assms] upsert_frame db_after_visit_def)

lemma save_others:
  assumes "visit_step_ok env now a name s" and "appointment_step_ok env now ident a name s"
  shows "filter (\<lambda>r. a_id r \<noteq> save_target env ident a s)
           (appointments (db (snd (Appointment_save env now ident a name s)))) =
         filter (\<lambda>r. a_id r \<noteq> save_target env ident a s) (appointments (db s))"
  using upsert_others [of "appointment_values env now (save_target env ident a s) (save_visit env a s) a"
      env now a "db_after_visit env now a name s"]
  by (simp add: save_db [OF assms] a_id_appointment_values appointments_db_after_visit)

lemma save_ids:
  assumes "visit_step_ok env now a name s" and "appointment_step_ok env now ident a name s"
  shows "map a_id (appointments (db (snd (Appointment_save env now ident a name s)))) =
         (if save_target env ident a s \<in> set (map a_id (appointments (db s)))
          then map a_id (appointments (db s))
          else map a_id (appointments (db s)) @ [save_target env ident a s])"
  using upsert_ids [of env now a
      "appointment_values env now (save_target env ident a s) (save_visit env a s) a"
      "db_after_visit env now a name s"]
  by (simp add: save_db [OF assms] a_id_appointment_values appointments_db_after_visit)

lemmas model_defs =
  Appointment_save_def transaction_def save_trx_def save_visitId_def uuidV1_call_def
  insert_visit_def executeTakeFirstOrThrow_def save_id_def insert_on_conflict_id_def
  upsert_rows_def visit_values_def appointment_values_def doUpdateSet_def upsertFromDelta_def

lemmas ex_defs = ex_helpers_def ex_appointment_def ex_stored_def ex_server_def ex_clinic_def

lemma ex_ok:
  "visit_step_ok ex_helpers 1000 ex_appointment ''Dr A'' ex_server"
  "appointment_step_ok ex_helpers 1000 None ex_appointment ''Dr A'' ex_server"
  by (simp_all add: visit_step_ok_def appointment_step_ok_def db_after_visit_def save_visit_def
      save_target_def save_visitId_def save_id_def uuidV1_call_def visit_values_def
      appointment_values_def ex_defs)

lemma distinct_count:
  "distinct xs \<Longrightarrow> count_list xs x = (if x \<in> set xs then 1 else 0)"
  by (induction xs) auto

lemma keyed_count:
  "distinct (map a_id rows) \<Longrightarrow> i \<in> set (map a_id rows) \<Longrightarrow>
   length (filter (\<lambda>r. a_id r = i) rows) = 1"
  by (simp only: count_ids distinct_count if_True)

lemma save_result_one:
  assumes "appointments_keyed s"
    and "visit_step_ok env now a name s" and "appointment_step_ok env now ident a name s"
  shows "fst (Appointment_save env now ident a name s) = Inr (InsertResult 1)"
proof -
  have "save_target env ident a s \<in> set (map a_id (appointments (db s))) \<Longrightarrow>
        length (filter (\<lambda>r. a_id r = save_target env ident a s) (appointments (db s))) = 1"
    using assms(1) by (simp add: appointments_keyed_def keyed_count)
  then show ?thesis
    by (simp add: save_ok [OF assms(2,3)] upsert_result a_id_appointment_values
        appointments_db_after_visit)
qed

lemma upsertFromDelta_as_save:
  "\<exists>i s1. upsertFromDelta env now d s = Appointment_save env now (Some i) d [] s1 \<and>
          db s1 = db s \<and> i = (if a_id d \<noteq> [] then a_id d else uuidV1 env (uuid_calls s))"
proof (cases "a_id d \<noteq> []")
  case True
  then have "upsertFromDelta env now d s = Appointment_save env now (Some (a_id d)) d [] s"
    by (simp add: upsertFromDelta_def)
  with True show ?thesis by auto
next
  case False
  then have "upsertFromDelta env now d s =
      Appointment_save env now (Some (uuidV1 env (uuid_calls s))) d []
        (s\<lparr>uuid_calls := Suc (uuid_calls s)\<rparr>)"
    by (simp add: upsertFromDelta_def uuidV1_call_def)
  moreover have "db (s\<lparr>uuid_calls := Suc (uuid_calls s)\<rparr>) = db s" by simp
  ultimately show ?thesis using False by metis
qed

lemma upsertFromDelta_with_id:
  "a_id d \<noteq> [] \<Longrightarrow> upsertFromDelta env now d s = Appointment_save env now (Some (a_id d)) d [] s"
  by (simp add: upsertFromDelta_def)

lemma save_target_Some:
  "i \<noteq> [] \<Longrightarrow> save_target env (Some i) a s = i"
  by (simp add: save_target_def save_id_def)

lemma written_row_content:
  assumes "row = appointment_values env now i v a \<or>
           row = doUpdateSet env now a (appointment_values env now i v a) old"
    and "safeJSONParse env (a_metadata a) = a_metadata a"
  shows "content_matches row a"
  using assms(2) written_row_fields [OF assms(1)] by (simp add: content_matches_def)

lemma sync_once:
  assumes ident: "a_id delta \<noteq> []"
    and json: "safeJSONParse env (a_metadata delta) = a_metadata delta"
    and res: "upsertFromDelta env now delta s = (Inr r, s')"
  shows "a_id delta \<in> set (map a_id (appointments (db s')))"
    and "\<forall>row \<in> set (appointments (db s')).
           a_id row = a_id delta \<longrightarrow> content_matches row delta \<and> a_last_modified row = now"
    and "length (visits (db s')) =
           length (visits (db s)) + (if isValidUUID env (a_current_visit_id delta) then 0 else 1)"
    and "a_id delta \<in> set (map a_id (appointments (db s))) \<Longrightarrow>
           map a_id (appointments (db s')) = map a_id (appointments (db s))"
proof -
  from res ident have save: "Appointment_save env now (Some (a_id delta)) delta [] s = (Inr r, s')"
    by (simp add: upsertFromDelta_with_id)
  note ok = save_Inr_ok [OF save]
  from save have s': "s' = snd (Appointment_save env now (Some (a_id delta)) delta [] s)" by simp
  have t: "save_target env (Some (a_id delta)) delta s = a_id delta"
    using ident by (rule save_target_Some)
  show "a_id delta \<in> set (map a_id (appointments (db s')))"
    unfolding s' by (simp add: save_ids [OF ok] t)
  show "\<forall>row \<in> set (appointments (db s')).
           a_id row = a_id delta \<longrightarrow> content_matches row delta \<and> a_last_modified row = now"
  proof (intro ballI impI)
    fix row
    assume "row \<in> set (appointments (db s'))" and "a_id row = a_id delta"
    then have "row = appointment_values env now (a_id delta) (save_visit env delta s) delta \<or>
         (\<exists>old \<in> set (appointments (db s)).
            row = doUpdateSet env now delta
                    (appointment_values env now (a_id delta) (save_visit env delta s) delta) old)"
      using save_row [OF ok, of row] unfolding s' t by simp
    then obtain old where
      row: "row = appointment_values env now (a_id delta) (save_visit env delta s) delta \<or>
            row = doUpdateSet env now delta
                    (appointment_values env now (a_id delta) (save_visit env delta s) delta) old"
      by auto
    show "content_matches row delta \<and> a_last_modified row = now"
      using written_row_content [OF row json] written_row_fields(15) [OF row] by simp
  qed
  show "length (visits (db s')) =
           length (visits (db s)) + (if isValidUUID env (a_current_visit_id delta) then 0 else 1)"
    unfolding s' by (simp add: save_frame(3) [OF ok])
  show "map a_id (appointments (db s')) = map a_id (appointments (db s))"
    if "a_id delta \<in> set (map a_id (appointments (db s)))"
    using that unfolding s' by (simp add: save_ids [OF ok] t)
qed

lemma save_target_nonempty:
  assumes "\<And>n. uuidV1 env n \<noteq> []"
  shows "save_target env ident a s \<noteq> []"
  using assms by (simp add: save_target_def save_id_def uuidV1_call_def split: option.splits)

lemma ex_keyed: "appointments_keyed ex_server"
  by (simp add: appointments_keyed_def ex_defs)


lemma clinic_users_empty:
  "(clinic_users ident s = []) =
   (\<not> (\<exists>u \<in> set (users (db s)). u_clinic_id u = Some ident \<and> \<not> u_is_deleted u))"
  by (simp add: clinic_users_def filter_empty_conv)

lemma softDelete_blocked:
  assumes "clinic_users ident s \<noteq> []"
  shows "Clinic_softDelete now ident s =
           (Inl (ClinicHasUsers ident (length (clinic_users ident s))), s)"
  using assms unfolding clinic_users_def by (simp add: Clinic_softDelete_def Let_def)

lemma softDelete_free:
  assumes "clinic_users ident s = []"
  shows "Clinic_softDelete now ident s =
           (Inr (),
            s\<lparr>db := (db s)\<lparr>clinics :=
                 map (\<lambda>c. if c_id c = ident
                          then c\<lparr> c_is_deleted := True, c_deleted_at := Some now \<rparr>
                          else c)
                     (clinics (db s))\<rparr>\<rparr>)"
  using assms unfolding clinic_users_def by (simp add: Clinic_softDelete_def Let_def)

lemma clinic_mark_ids:
  "map c_id (map (\<lambda>c. if c_id c = ident
                       then c\<lparr> c_is_deleted := True, c_deleted_at := Some now \<rparr>
                       else c) cs) = map c_id cs"
  by (induction cs) auto

lemma clinic_mark_set:
  assumes "c \<in> set (map (\<lambda>c. if c_id c = ident
                       then c\<lparr> c_is_deleted := True, c_deleted_at := Some now \<rparr>
                       else c) cs)"
    and "c_id c = ident"
  shows "c_is_deleted c \<and> c_deleted_at c = Some now"
proof -
  from assms(1) obtain old where "old \<in> set cs"
    and c: "c = (if c_id old = ident
                 then old\<lparr> c_is_deleted := True, c_deleted_at := Some now \<rparr> else old)"
    by auto
  show ?thesis
  proof (cases "c_id old = ident")
    case True
    with c show ?thesis by simp
  next
    case False
    with c assms(2) show ?thesis by simp
  qed
qed

lemma Appointment_softDelete_db:
  "db (snd (Appointment_softDelete now i s)) =
     (db s)\<lparr>appointments :=
        map (\<lambda>r. if a_id r = i
                 then r\<lparr> a_is_deleted := True, a_deleted_at := Some now,
                         a_updated_at := now, a_last_modified := now \<rparr>
                 else r)
            (appointments (db s))\<rparr>"
  by (simp add: Appointment_softDelete_def)

lemma Clinic_softDelete_clinics:
  "clinics (db (snd (Clinic_softDelete now i s))) =
     map (\<lambda>c. if c_id c = i \<and> fst (Clinic_softDelete now i s) = Inr ()
              then c\<lparr> c_is_deleted := True, c_deleted_at := Some now \<rparr> else c)
         (clinics (db s))"
proof (cases "clinic_users i s = []")
  case True
  then show ?thesis by (simp add: softDelete_free)
next
  case False
  then show ?thesis by (simp add: softDelete_blocked)
qed

lemma Clinic_softDelete_frame:
  "appointments (db (snd (Clinic_softDelete now i s))) = appointments (db s)"
  "visits (db (snd (Clinic_softDelete now i s))) = visits (db s)"
  "users (db (snd (Clinic_softDelete now i s))) = users (db s)"
  by (cases "clinic_users i s = []"; simp add: softDelete_free softDelete_blocked)+

lemma Appointment_softDelete_rows:
  "appointments (db (snd (Appointment_softDelete now i s))) =
     map (\<lambda>r. if a_id r = i
              then r\<lparr> a_is_deleted := True, a_deleted_at := Some now,
                      a_updated_at := now, a_last_modified := now \<rparr>
              else r)
         (appointments (db s))"
  by (simp add: Appointment_softDelete_def)

lemma mark_hidden_gen:
  assumes "\<And>r. a_is_deleted (f r)"
  shows "filter (\<lambda>r. a_is_deleted r = False)
     (filter (\<lambda>r. a_id r = i) (map (\<lambda>r. if a_id r = i then f r else r) rows)) = []"
  using assms by (induction rows) simp_all

lemma mark_getAll_gen:
  assumes "\<And>r. a_is_deleted (f r)"
  shows "i \<notin> set (map a_id (filter (\<lambda>r. a_is_deleted r = False)
        (map (\<lambda>r. if a_id r = i then f r else r) rows)))"
  using assms by (induction rows) simp_all

lemma clinic_mark_getAll_gen:
  assumes "\<And>c. c_is_deleted (f c)"
  shows "i \<notin> set (map c_id (filter (\<lambda>c. c_is_deleted c = False)
        (map (\<lambda>c. if c_id c = i then f c else c) cs)))"
  using assms by (induction cs) simp_all

lemma appointment_mark_hidden:
  "filter (\<lambda>r. a_is_deleted r = False)
     (filter (\<lambda>r. a_id r = i)
        (map (\<lambda>r. if a_id r = i
                 then r\<lparr> a_is_deleted := True, a_deleted_at := Some now,
                         a_updated_at := now, a_last_modified := now \<rparr>
                 else r) rows)) = []"
  by (rule mark_hidden_gen) simp

lemma appointment_mark_ids:
  "map a_id (map (\<lambda>r. if a_id r = i
                 then r\<lparr> a_is_deleted := True, a_deleted_at := Some now,
                         a_updated_at := now, a_last_modified := now \<rparr>
                 else r) rows) = map a_id rows"
  by (rule map_upd_ids) simp

lemma appointment_mark_getAll:
  "i \<notin> set (map a_id (filter (\<lambda>r. a_is_deleted r = False)
        (map (\<lambda>r. if a_id r = i
                 then r\<lparr> a_is_deleted := True, a_deleted_at := Some now,
                         a_updated_at := now, a_last_modified := now \<rparr>
                 else r) rows)))"
  by (rule mark_getAll_gen) simp

lemma clinic_mark_getAll:
  "i \<notin> set (map c_id (filter (\<lambda>c. c_is_deleted c = False)
        (map (\<lambda>c. if c_id c = i
                 then c\<lparr> c_is_deleted := True, c_deleted_at := Some now \<rparr>
                 else c) cs)))"
  by (rule clinic_mark_getAll_gen) simp

lemma getById_Some:
  assumes "Appointment_getById i s = Some r"
  shows "a_id r = i \<and> \<not> a_is_deleted r \<and> r \<in> set (appointments (db s))"
proof -
  let ?rows = "filter (\<lambda>r. a_is_deleted r = False) (filter (\<lambda>r. a_id r = i) (appointments (db s)))"
  from assms have "r \<in> set ?rows"
    by (cases ?rows) (simp_all add: Appointment_getById_def executeTakeFirst_def)
  then show ?thesis by simp
qed

lemma Clinic_save_insert:
  assumes "creates_clinic ident"
    and "uuidV1 env (uuid_calls s) \<notin> set (map c_id (clinics (db s)))"
  shows "Clinic_save env now ident name s =
     (Inr (),
      s\<lparr>uuid_calls := Suc (uuid_calls s),
        db := (db s)\<lparr>clinics := clinics (db s) @
                 [clinic_values now (uuidV1 env (uuid_calls s)) name]\<rparr>\<rparr>)"
proof -
  have i: "c_id (clinic_values now (uuidV1 env (uuid_calls s)) name) = uuidV1 env (uuid_calls s)"
    by (simp add: clinic_values_def)
  from assms show ?thesis
    by (simp add: Clinic_save_def creates_clinic_def uuidV1_call_def insert_clinic_def i)
qed

lemma Clinic_save_update:
  assumes "5 < length i"
  shows "Clinic_save env now (Some i) name s =
     (Inr (),
      s\<lparr>db := (db s)\<lparr>clinics :=
           map (\<lambda>c. if c_id c = i then c\<lparr> c_name := Some name \<rparr> else c) (clinics (db s))\<rparr>\<rparr>)"
  using assms by (simp add: Clinic_save_def)

lemma rename_absent:
  "i \<notin> set (map c_id cs) \<Longrightarrow>
   map (\<lambda>c. if c_id c = i then f c else c) cs = cs"
  by (induction cs) auto

lemma rename_ids:
  assumes "\<And>c. c_id (f c) = c_id c"
  shows "map c_id (map (\<lambda>c. if c_id c = i then f c else c) cs) = map c_id cs"
  using assms by (induction cs) simp_all


section \<open>The claims\<close>

text \<open>
  Claim C1. The sync layer is a pass-through: \<^verbatim>\<open>upsertFromDelta(d)\<close> returns the result and
  leaves the state of \<^verbatim>\<open>save(d.id || uuidV1(), d, "")\<close>, the identifier being generated only
  when the delta has none, and \<^verbatim>\<open>deleteFromDelta(id)\<close> those of \<^verbatim>\<open>softDelete(id)\<close>.
\<close>

theorem sync_pass_through:
  "upsertFromDelta env now d s =
     Appointment_save env now
       (Some (if a_id d \<noteq> [] then a_id d else uuidV1 env (uuid_calls s))) d []
       (if a_id d \<noteq> [] then s else s\<lparr>uuid_calls := Suc (uuid_calls s)\<rparr>)
   \<and> deleteFromDelta now i s = Appointment_softDelete now i s"
  by (simp add: upsertFromDelta_def deleteFromDelta_def uuidV1_call_def)

text \<open>
  Claim C2. \<^verbatim>\<open>save\<close> runs in one transaction and writes at most twice. It fails exactly
  when the visit step or the appointment step does, and the database is then as before
  the call: when it is the appointment row that the database rejects, the body of the
  transaction has already written the visit, and the failed call leaves no trace of it.
  When \<^verbatim>\<open>save\<close> succeeds, clinics and users are untouched; a visit row is appended, under
  a generated id, exactly when the appointment's visit id is not well-formed, and
  otherwise no visit is written and the appointment's visit id is used; the appointment
  rows of other ids are as before, the ids of the table are those of before with the
  target appended if it was new, and the rows of the target id carry the visit id. The
  empty string is taken not to be a well-formed identifier.
\<close>

theorem save_two_writes:
  assumes "\<not> isValidUUID env []"
  shows "case Appointment_save env now ident a name s of
      (Inl e, s') \<Rightarrow>
        \<not> (visit_step_ok env now a name s \<and> appointment_step_ok env now ident a name s) \<and>
        db s' = db s \<and>
        (visit_step_ok env now a name s \<longrightarrow>
           e = ConstraintViolation ''appointments'' \<and>
           appointments (db (snd (save_trx env now ident a name s))) = appointments (db s) \<and>
           (if isValidUUID env (a_current_visit_id a)
            then visits (db (snd (save_trx env now ident a name s))) = visits (db s)
            else \<exists>v. visits (db (snd (save_trx env now ident a name s))) = visits (db s) @ [v] \<and>
                     v_id v = uuidV1 env (uuid_calls s)))
    | (Inr r, s') \<Rightarrow>
        visit_step_ok env now a name s \<and>
        appointment_step_ok env now ident a name s \<and>
        db s' = db (snd (save_trx env now ident a name s)) \<and>
        clinics (db s') = clinics (db s) \<and>
        users (db s') = users (db s) \<and>
        (if isValidUUID env (a_current_visit_id a)
         then visits (db s') = visits (db s) \<and> save_visit env a s = a_current_visit_id a
         else (\<exists>v. visits (db s') = visits (db s) @ [v] \<and> v_id v = save_visit env a s) \<and>
              save_visit env a s = uuidV1 env (uuid_calls s)) \<and>
        filter (\<lambda>r. a_id r \<noteq> save_target env ident a s) (appointments (db s')) =
          filter (\<lambda>r. a_id r \<noteq> save_target env ident a s) (appointments (db s)) \<and>
        map a_id (appointments (db s')) =
          (if save_target env ident a s \<in> set (map a_id (appointments (db s)))
           then map a_id (appointments (db s))
           else map a_id (appointments (db s)) @ [save_target env ident a s]) \<and>
        (\<forall>row \<in> set (appointments (db s')).
           a_id row = save_target env ident a s \<longrightarrow>
           a_current_visit_id row = save_visit env a s)"
proof (cases "visit_step_ok env now a name s \<and> appointment_step_ok env now ident a name s")
  case False
  then obtain e where e: "fst (Appointment_save env now ident a name s) = Inl e"
    using save_succeeds_iff [of env now ident a name s]
    by (cases "fst (Appointment_save env now ident a name s)") auto
  obtain s' where res: "Appointment_save env now ident a name s = (Inl e, s')"
    using e by (cases "Appointment_save env now ident a name s") simp
  then have s': "s' = snd (Appointment_save env now ident a name s)" by simp
  have undone: "db s' = db s"
    unfolding s' using False by (rule save_failure_db)
  have body: "e = ConstraintViolation ''appointments'' \<and>
           appointments (db (snd (save_trx env now ident a name s))) = appointments (db s) \<and>
           (if isValidUUID env (a_current_visit_id a)
            then visits (db (snd (save_trx env now ident a name s))) = visits (db s)
            else \<exists>v. visits (db (snd (save_trx env now ident a name s))) = visits (db s) @ [v] \<and>
                     v_id v = uuidV1 env (uuid_calls s))"
    if v: "visit_step_ok env now a name s"
  proof -
    from False v have rej: "\<not> appointment_step_ok env now ident a name s" by simp
    from res have "e = ConstraintViolation ''appointments''"
      by (simp add: save_fail_appointment(1) [OF v rej])
    then show ?thesis
      by (simp add: save_fail_appointment(2) [OF v rej] db_after_visit_def
          save_visit_invalid v_id_visit_values)
  qed
  from False undone body show ?thesis
    unfolding res by simp
next
  case True
  then have v: "visit_step_ok env now a name s"
    and ap: "appointment_step_ok env now ident a name s" by simp_all
  obtain r s' where res: "Appointment_save env now ident a name s = (Inr r, s')"
    using save_ok [OF v ap] by blast
  then have s': "s' = snd (Appointment_save env now ident a name s)" by simp
  have body: "db s' = db (snd (save_trx env now ident a name s))"
    using ap unfolding s' by (simp add: save_db [OF v ap] save_trx_after_visit [OF v])
  have vis: "if isValidUUID env (a_current_visit_id a)
         then visits (db s') = visits (db s) \<and> save_visit env a s = a_current_visit_id a
         else (\<exists>v. visits (db s') = visits (db s) @ [v] \<and> v_id v = save_visit env a s) \<and>
              save_visit env a s = uuidV1 env (uuid_calls s)"
    using assms
    by (simp add: s' save_frame [OF v ap] save_visit_valid save_visit_invalid v_id_visit_values)
  have rows: "\<forall>row \<in> set (appointments (db s')).
           a_id row = save_target env ident a s \<longrightarrow>
           a_current_visit_id row = save_visit env a s"
  proof (intro ballI impI)
    fix row
    assume "row \<in> set (appointments (db s'))" and "a_id row = save_target env ident a s"
    then show "a_current_visit_id row = save_visit env a s"
      using save_row [OF v ap, of row] written_row_fields(6)
      unfolding s' by blast
  qed
  have frame: "clinics (db s') = clinics (db s)" "users (db s') = users (db s)"
    unfolding s' by (simp_all add: save_frame(1,2) [OF v ap])
  have others: "filter (\<lambda>r. a_id r \<noteq> save_target env ident a s) (appointments (db s')) =
          filter (\<lambda>r. a_id r \<noteq> save_target env ident a s) (appointments (db s))"
    unfolding s' by (rule save_others [OF v ap])
  have ids: "map a_id (appointments (db s')) =
          (if save_target env ident a s \<in> set (map a_id (appointments (db s)))
           then map a_id (appointments (db s))
           else map a_id (appointments (db s)) @ [save_target env ident a s])"
    unfolding s' by (rule save_ids [OF v ap])
  from v ap body frame vis others ids rows show ?thesis
    unfolding res by simp
qed

theorem save_two_writes_witness:
  "\<not> isValidUUID ex_helpers [] \<and>
   fst (Appointment_save ex_helpers 1000 None ex_appointment ''Dr A'' ex_server) = Inr (InsertResult 1) \<and>
   map v_id (visits (db (snd (Appointment_save ex_helpers 1000 None ex_appointment ''Dr A'' ex_server))))
     = [''00000000-0000-1000-8000-000000000000''] \<and>
   map a_id (appointments (db (snd (Appointment_save ex_helpers 1000 None ex_appointment ''Dr A'' ex_server))))
     = [''appt-1''] \<and>
   map a_current_visit_id
       (appointments (db (snd (Appointment_save ex_helpers 1000 None ex_appointment ''Dr A'' ex_server))))
     = [''00000000-0000-1000-8000-000000000000''] \<and>
   fst (Appointment_save ex_helpers 1000 None ex_rejected ''Dr A'' ex_server) =
     Inl (ConstraintViolation ''appointments'') \<and>
   map v_id (visits (db (snd (save_trx ex_helpers 1000 None ex_rejected ''Dr A'' ex_server))))
     = [''00000000-0000-1000-8000-000000000000''] \<and>
   db (snd (Appointment_save ex_helpers 1000 None ex_rejected ''Dr A'' ex_server)) = db ex_server \<and>
   visits (db ex_server) = []"
proof -
  have h: "\<not> isValidUUID ex_helpers []"
    by (simp add: ex_helpers_def)
  have e: "fst (Appointment_save ex_helpers 1000 None ex_appointment ''Dr A'' ex_server) = Inr (InsertResult 1)"
    by (simp add: model_defs ex_defs)
  have t: "save_target ex_helpers None ex_appointment ex_server = ''appt-1''"
    by (simp add: save_target_def save_id_def ex_defs)
  have v: "save_visit ex_helpers ex_appointment ex_server = ''00000000-0000-1000-8000-000000000000''"
    by (simp add: save_visit_def save_visitId_def uuidV1_call_def ex_defs)
  have i: "\<not> isValidUUID ex_helpers (a_current_visit_id ex_appointment)"
    "\<not> isValidUUID ex_helpers (a_current_visit_id ex_rejected)"
    by (simp_all add: ex_defs ex_rejected_def)
  have u: "uuidV1 ex_helpers (uuid_calls ex_server) = ''00000000-0000-1000-8000-000000000000''"
    by (simp add: ex_defs)
  have old: "appointments (db ex_server) = [ex_stored]" "visits (db ex_server) = []" "a_id ex_stored = ''appt-1''"
    by (simp_all add: ex_defs)
  have vr: "visit_step_ok ex_helpers 1000 ex_rejected ''Dr A'' ex_server"
    by (simp add: visit_step_ok_def visit_values_def ex_defs ex_rejected_def)
  have er: "fst (Appointment_save ex_helpers 1000 None ex_rejected ''Dr A'' ex_server) =
     Inl (ConstraintViolation ''appointments'')"
    by (simp add: model_defs ex_defs ex_rejected_def)
  obtain r s' where p: "Appointment_save ex_helpers 1000 None ex_appointment ''Dr A'' ex_server = (r, s')"
    by (cases "Appointment_save ex_helpers 1000 None ex_appointment ''Dr A'' ex_server")
  with e have r: "r = Inr (InsertResult 1)" by simp
  obtain r2 s2 where p2: "Appointment_save ex_helpers 1000 None ex_rejected ''Dr A'' ex_server = (r2, s2)"
    by (cases "Appointment_save ex_helpers 1000 None ex_rejected ''Dr A'' ex_server")
  with er have r2: "r2 = Inl (ConstraintViolation ''appointments'')" by simp
  from save_two_writes [where env = ex_helpers and now = 1000 and ident = None
      and a = ex_appointment and name = "''Dr A''" and s = ex_server, OF h]
  have ok: "map v_id (visits (db s')) = [''00000000-0000-1000-8000-000000000000'']"
    "map a_id (appointments (db s')) = [''appt-1'']"
    "map a_current_visit_id (appointments (db s')) = [''00000000-0000-1000-8000-000000000000'']"
    unfolding p r using i by (auto simp: t v old)
  from save_two_writes [where env = ex_helpers and now = 1000 and ident = None
      and a = ex_rejected and name = "''Dr A''" and s = ex_server, OF h]
  have undone: "db s2 = db ex_server"
    "map v_id (visits (db (snd (save_trx ex_helpers 1000 None ex_rejected ''Dr A'' ex_server))))
       = [''00000000-0000-1000-8000-000000000000'']"
    unfolding p2 r2 using i vr by (auto simp: u old)
  from h e er ok undone old(2) show ?thesis
    by (simp add: p p2)
qed

text \<open>
  Claim C4. Last writer wins. No stored appointment has the empty id (\<^verbatim>\<open>save\<close> writes
  none). For a delta whose id is the id of a stored appointment, whatever the stored row
  was, after a successful \<^verbatim>\<open>upsertFromDelta\<close> the table has the ids it had, and the rows
  of that id carry the delta's clinic, patient, user, fulfilled visit, timestamp, duration,
  reason, notes, status, metadata and provider, and the time of the call as
  \<^verbatim>\<open>last_modified\<close>. Applying the same delta again writes again: the rows carry the time
  of the second call, and a delta without a well-formed visit id has then created two
  visits. The metadata is stored as \<^verbatim>\<open>safeJSONParse\<close> returns it, which is taken to
  leave the delta's metadata as it is.
\<close>

theorem sync_last_writer_wins:
  assumes "[] \<notin> set (map a_id (appointments (db s)))"
    and "a_id delta \<in> set (map a_id (appointments (db s)))"
    and "safeJSONParse env (a_metadata delta) = a_metadata delta"
    and "upsertFromDelta env now delta s = (Inr r, s')"
  shows "map a_id (appointments (db s')) = map a_id (appointments (db s)) \<and>
    (\<exists>row \<in> set (appointments (db s')). a_id row = a_id delta) \<and>
    (\<forall>row \<in> set (appointments (db s')).
       a_id row = a_id delta \<longrightarrow> content_matches row delta \<and> a_last_modified row = now) \<and>
    (\<forall>now2 r2 s2. upsertFromDelta env now2 delta s' = (Inr r2, s2) \<longrightarrow>
       (\<forall>row \<in> set (appointments (db s2)).
          a_id row = a_id delta \<longrightarrow> content_matches row delta \<and> a_last_modified row = now2) \<and>
       length (visits (db s2)) =
         length (visits (db s)) + (if isValidUUID env (a_current_visit_id delta) then 0 else 2))"
proof -
  from assms(1,2) have ident: "a_id delta \<noteq> []" by metis
  note once = sync_once [OF ident assms(3,4)]
  have same: "map a_id (appointments (db s')) = map a_id (appointments (db s))"
    using assms(2) by (rule once(4))
  from once(1) have present: "\<exists>row \<in> set (appointments (db s')). a_id row = a_id delta"
    by auto
  have again: "(\<forall>row \<in> set (appointments (db s2)).
          a_id row = a_id delta \<longrightarrow> content_matches row delta \<and> a_last_modified row = now2) \<and>
       length (visits (db s2)) =
         length (visits (db s)) + (if isValidUUID env (a_current_visit_id delta) then 0 else 2)"
    if second: "upsertFromDelta env now2 delta s' = (Inr r2, s2)" for now2 r2 s2
    using sync_once(2) [OF ident assms(3) second] sync_once(3) [OF ident assms(3) second] once(3)
    by simp
  from same present once(2) again show ?thesis by blast
qed

theorem sync_last_writer_wins_witness:
  "[] \<notin> set (map a_id (appointments (db ex_server))) \<and>
   a_id ex_appointment \<in> set (map a_id (appointments (db ex_server))) \<and>
   safeJSONParse ex_helpers (a_metadata ex_appointment) = a_metadata ex_appointment \<and>
   upsertFromDelta ex_helpers 1000 ex_appointment ex_server =
     (Inr (InsertResult 1), snd (upsertFromDelta ex_helpers 1000 ex_appointment ex_server)) \<and>
   map a_id (appointments (db (snd (upsertFromDelta ex_helpers 1000 ex_appointment ex_server))))
     = [''appt-1''] \<and>
   map a_status (appointments (db ex_server)) = [''pending''] \<and>
   map a_status (appointments (db (snd (upsertFromDelta ex_helpers 1000 ex_appointment ex_server))))
     = [''confirmed''] \<and>
   map a_clinic_id (appointments (db (snd (upsertFromDelta ex_helpers 1000 ex_appointment ex_server))))
     = [''clinic-2''] \<and>
   map a_last_modified (appointments (db (snd (upsertFromDelta ex_helpers 1000 ex_appointment ex_server))))
     = [1000]"
proof -
  have h1: "[] \<notin> set (map a_id (appointments (db ex_server)))" by (simp add: ex_defs)
  have h2: "a_id ex_appointment \<in> set (map a_id (appointments (db ex_server)))"
    by (simp add: ex_defs)
  have h3: "safeJSONParse ex_helpers (a_metadata ex_appointment) = a_metadata ex_appointment"
    by (simp add: ex_defs)
  have h4: "upsertFromDelta ex_helpers 1000 ex_appointment ex_server =
     (Inr (InsertResult 1), snd (upsertFromDelta ex_helpers 1000 ex_appointment ex_server))"
    by (simp add: prod_eq_iff) (simp add: model_defs ex_defs)
  have old: "map a_id (appointments (db ex_server)) = [''appt-1'']"
    "map a_status (appointments (db ex_server)) = [''pending'']"
    by (simp_all add: ex_defs)
  have v: "map a_status (appointments (db (snd (upsertFromDelta ex_helpers 1000 ex_appointment ex_server))))
     = [''confirmed'']"
    "map a_clinic_id (appointments (db (snd (upsertFromDelta ex_helpers 1000 ex_appointment ex_server))))
     = [''clinic-2'']"
    "map a_last_modified (appointments (db (snd (upsertFromDelta ex_helpers 1000 ex_appointment ex_server))))
     = [1000]"
    by (simp_all add: model_defs ex_defs)
  from sync_last_writer_wins [OF h1 h2 h3 h4]
  have "map a_id (appointments (db (snd (upsertFromDelta ex_helpers 1000 ex_appointment ex_server))))
     = [''appt-1'']"
    by (simp add: old)
  then show ?thesis using h1 h2 h3 h4 old v by simp
qed

text \<open>
  Claim C5. The appointment write of \<^verbatim>\<open>save\<close> is an upsert. On a table whose ids are
  pairwise different, \<^verbatim>\<open>save\<close> succeeds exactly when the visit step goes through and the
  database accepts the proposed row, whether or not a row of the target id is stored: a
  taken id is never what makes it fail. After a successful \<^verbatim>\<open>save\<close> one row was inserted
  or updated, the ids are still pairwise different and exactly one row has the target id.
  When a row of that id was stored, the table has as many rows as before, the row stands
  where it stood with every column but \<^verbatim>\<open>server_created_at\<close> taken from the proposed row,
  and the other rows are as they were; when none was stored, the proposed row is appended.
\<close>

theorem save_is_upsert:
  assumes "appointments_keyed s"
  shows "(\<exists>r. fst (Appointment_save env now ident a name s) = Inr r) =
           (visit_step_ok env now a name s \<and> appointment_step_ok env now ident a name s) \<and>
    fst (Appointment_save env now ident a name s) \<noteq> Inl (UniqueViolation ''appointments'') \<and>
    (visit_step_ok env now a name s \<and> appointment_step_ok env now ident a name s \<longrightarrow>
       fst (Appointment_save env now ident a name s) = Inr (InsertResult 1) \<and>
       appointments_keyed (snd (Appointment_save env now ident a name s)) \<and>
       length (filter (\<lambda>r. a_id r = save_target env ident a s)
                 (appointments (db (snd (Appointment_save env now ident a name s))))) = 1 \<and>
       (if save_target env ident a s \<in> set (map a_id (appointments (db s)))
        then length (appointments (db (snd (Appointment_save env now ident a name s)))) =
               length (appointments (db s)) \<and>
             (\<forall>k < length (appointments (db s)).
                appointments (db (snd (Appointment_save env now ident a name s))) ! k =
                  (if a_id (appointments (db s) ! k) = save_target env ident a s
                   then (appointment_values env now (save_target env ident a s)
                           (save_visit env a s) a)
                          \<lparr> a_server_created_at := a_server_created_at (appointments (db s) ! k) \<rparr>
                   else appointments (db s) ! k))
        else appointments (db (snd (Appointment_save env now ident a name s))) =
               appointments (db s) @
                 [appointment_values env now (save_target env ident a s) (save_visit env a s) a]))"
proof (intro conjI impI)
  show "(\<exists>r. fst (Appointment_save env now ident a name s) = Inr r) =
           (visit_step_ok env now a name s \<and> appointment_step_ok env now ident a name s)"
    by (rule save_succeeds_iff)
  show "fst (Appointment_save env now ident a name s) \<noteq> Inl (UniqueViolation ''appointments'')"
  proof (cases "visit_step_ok env now a name s")
    case False
    then show ?thesis by (simp add: save_fail_visit)
  next
    case v: True
    show ?thesis
    proof (cases "appointment_step_ok env now ident a name s")
      case False
      with v show ?thesis by (simp add: save_fail_appointment(1))
    next
      case True
      with v show ?thesis by (simp add: save_ok)
    qed
  qed
next
  assume "visit_step_ok env now a name s \<and> appointment_step_ok env now ident a name s"
  then have v: "visit_step_ok env now a name s"
    and ap: "appointment_step_ok env now ident a name s" by simp_all
  show "fst (Appointment_save env now ident a name s) = Inr (InsertResult 1)"
    by (rule save_result_one [OF assms v ap])
  show keyed: "appointments_keyed (snd (Appointment_save env now ident a name s))"
    using assms by (simp add: appointments_keyed_def save_ids [OF v ap])
  have "save_target env ident a s \<in>
          set (map a_id (appointments (db (snd (Appointment_save env now ident a name s)))))"
    by (simp add: save_ids [OF v ap])
  with keyed show "length (filter (\<lambda>r. a_id r = save_target env ident a s)
                 (appointments (db (snd (Appointment_save env now ident a name s))))) = 1"
    unfolding appointments_keyed_def by (rule keyed_count)
  show "if save_target env ident a s \<in> set (map a_id (appointments (db s)))
        then length (appointments (db (snd (Appointment_save env now ident a name s)))) =
               length (appointments (db s)) \<and>
             (\<forall>k < length (appointments (db s)).
                appointments (db (snd (Appointment_save env now ident a name s))) ! k =
                  (if a_id (appointments (db s) ! k) = save_target env ident a s
                   then (appointment_values env now (save_target env ident a s)
                           (save_visit env a s) a)
                          \<lparr> a_server_created_at := a_server_created_at (appointments (db s) ! k) \<rparr>
                   else appointments (db s) ! k))
        else appointments (db (snd (Appointment_save env now ident a name s))) =
               appointments (db s) @
                 [appointment_values env now (save_target env ident a s) (save_visit env a s) a]"
    by (simp add: save_appointments [OF v ap] doUpdateSet_values)
qed

theorem save_is_upsert_witness:
  "appointments_keyed ex_server \<and>
   visit_step_ok ex_helpers 1000 ex_appointment ''Dr A'' ex_server \<and>
   appointment_step_ok ex_helpers 1000 None ex_appointment ''Dr A'' ex_server \<and>
   fst (Appointment_save ex_helpers 1000 None ex_appointment ''Dr A'' ex_server) = Inr (InsertResult 1) \<and>
   appointments (db ex_server) = [ex_stored] \<and>
   a_status ex_stored = ''pending'' \<and>
   length (appointments (db (snd (Appointment_save ex_helpers 1000 None ex_appointment ''Dr A'' ex_server))))
     = 1 \<and>
   appointments (db (snd (Appointment_save ex_helpers 1000 None ex_appointment ''Dr A'' ex_server))) ! 0 =
     (appointment_values ex_helpers 1000 ''appt-1'' ''00000000-0000-1000-8000-000000000000''
        ex_appointment)\<lparr> a_server_created_at := 100 \<rparr> \<and>
   a_status (appointment_values ex_helpers 1000 ''appt-1'' ''00000000-0000-1000-8000-000000000000''
        ex_appointment) = ''confirmed''"
proof -
  have t: "save_target ex_helpers None ex_appointment ex_server = ''appt-1''"
    by (simp add: save_target_def save_id_def ex_defs)
  have v: "save_visit ex_helpers ex_appointment ex_server = ''00000000-0000-1000-8000-000000000000''"
    by (simp add: save_visit_def save_visitId_def uuidV1_call_def ex_defs)
  have old: "appointments (db ex_server) = [ex_stored]" "a_id ex_stored = ''appt-1''"
    "a_server_created_at ex_stored = 100" "a_status ex_stored = ''pending''"
    by (simp_all add: ex_defs)
  have new: "a_status (appointment_values ex_helpers 1000 ''appt-1''
       ''00000000-0000-1000-8000-000000000000'' ex_appointment) = ''confirmed''"
    by (simp add: appointment_values_def ex_appointment_def)
  from save_is_upsert [OF ex_keyed, where env = ex_helpers and now = 1000 and ident = None
      and a = ex_appointment and name = "''Dr A''"]
  show ?thesis
    using ex_keyed ex_ok new by (simp add: t v old)
qed

text \<open>
  Claim C7. After every successful \<^verbatim>\<open>save\<close> a row of the target id is stored, and every
  row of that id has \<^verbatim>\<open>last_modified\<close> equal to the time of the transaction, whether the
  row was inserted or updated on conflict.
\<close>

theorem save_last_modified:
  assumes "Appointment_save env now ident a name s = (Inr r, s')"
  shows "(\<exists>row \<in> set (appointments (db s')). a_id row = save_target env ident a s) \<and>
         (\<forall>row \<in> set (appointments (db s')).
            a_id row = save_target env ident a s \<longrightarrow> a_last_modified row = now)"
proof -
  note ok = save_Inr_ok [OF assms]
  from assms have s': "s' = snd (Appointment_save env now ident a name s)" by simp
  have "save_target env ident a s \<in> set (map a_id (appointments (db s')))"
    unfolding s' by (simp add: save_ids [OF ok])
  then have ex: "\<exists>row \<in> set (appointments (db s')). a_id row = save_target env ident a s"
    by auto
  have "a_last_modified row = now"
    if "row \<in> set (appointments (db s'))" and "a_id row = save_target env ident a s" for row
    using save_row [OF ok, of row] written_row_fields(15) that
    unfolding s' by blast
  with ex show ?thesis by blast
qed

theorem save_last_modified_witness:
  "Appointment_save ex_helpers 1000 None ex_appointment ''Dr A'' ex_server =
     (Inr (InsertResult 1), snd (Appointment_save ex_helpers 1000 None ex_appointment ''Dr A'' ex_server)) \<and>
   map a_last_modified
     (appointments (db (snd (Appointment_save ex_helpers 1000 None ex_appointment ''Dr A'' ex_server))))
     = [1000] \<and>
   Appointment_save ex_helpers 1000 (Some ''appt-9'') ex_appointment ''Dr A'' ex_server =
     (Inr (InsertResult 1),
      snd (Appointment_save ex_helpers 1000 (Some ''appt-9'') ex_appointment ''Dr A'' ex_server)) \<and>
   map a_last_modified
     (filter (\<lambda>r. a_id r = ''appt-9'')
       (appointments (db (snd (Appointment_save ex_helpers 1000 (Some ''appt-9'') ex_appointment ''Dr A'' ex_server)))))
     = [1000]"
proof -
  have e1: "Appointment_save ex_helpers 1000 None ex_appointment ''Dr A'' ex_server =
     (Inr (InsertResult 1), snd (Appointment_save ex_helpers 1000 None ex_appointment ''Dr A'' ex_server))"
    by (simp add: prod_eq_iff) (simp add: model_defs ex_defs)
  have e2: "Appointment_save ex_helpers 1000 (Some ''appt-9'') ex_appointment ''Dr A'' ex_server =
     (Inr (InsertResult 1),
      snd (Appointment_save ex_helpers 1000 (Some ''appt-9'') ex_appointment ''Dr A'' ex_server))"
    by (simp add: prod_eq_iff) (simp add: model_defs ex_defs)
  have v1: "map a_last_modified
     (appointments (db (snd (Appointment_save ex_helpers 1000 None ex_appointment ''Dr A'' ex_server))))
     = [1000]"
    by (simp add: model_defs ex_defs)
  have v2: "map a_last_modified
     (filter (\<lambda>r. a_id r = ''appt-9'')
       (appointments (db (snd (Appointment_save ex_helpers 1000 (Some ''appt-9'') ex_appointment ''Dr A'' ex_server)))))
     = [1000]"
    by (simp add: model_defs ex_defs)
  from save_last_modified [OF e1] save_last_modified [OF e2]
  show ?thesis using e1 e2 v1 v2 by simp
qed

text \<open>
  Claim C10. When \<^verbatim>\<open>upsertFromDelta\<close> succeeds on a delta whose visit id is not
  well-formed, the visit row it appends has the empty string as \<^verbatim>\<open>provider_name\<close> and the
  delta's \<^verbatim>\<open>user_id\<close> as \<^verbatim>\<open>provider_id\<close>.
\<close>

theorem sync_visit_provider:
  assumes "\<not> isValidUUID env (a_current_visit_id delta)"
    and "upsertFromDelta env now delta s = (Inr r, s')"
  shows "\<exists>v. visits (db s') = visits (db s) @ [v] \<and>
             v_provider_name v = [] \<and> v_provider_id v = a_user_id delta"
proof -
  obtain i s1 where save: "upsertFromDelta env now delta s = Appointment_save env now (Some i) delta [] s1"
    and d: "db s1 = db s"
    using upsertFromDelta_as_save [of env now delta s] by blast
  with assms(2) have res: "Appointment_save env now (Some i) delta [] s1 = (Inr r, s')" by simp
  note ok = save_Inr_ok [OF res]
  from res have s': "s' = snd (Appointment_save env now (Some i) delta [] s1)" by simp
  have "visits (db s') = visits (db s) @ [visit_values now (save_visit env delta s1) delta []]"
    unfolding s' using assms(1) by (simp add: save_frame(3) [OF ok] d)
  then show ?thesis by (simp add: visit_values_def)
qed

theorem sync_visit_provider_witness:
  "\<not> isValidUUID ex_helpers (a_current_visit_id ex_appointment) \<and>
   upsertFromDelta ex_helpers 1000 ex_appointment ex_server =
     (Inr (InsertResult 1), snd (upsertFromDelta ex_helpers 1000 ex_appointment ex_server)) \<and>
   map v_provider_name (visits (db (snd (upsertFromDelta ex_helpers 1000 ex_appointment ex_server)))) = [[]] \<and>
   map v_provider_id (visits (db (snd (upsertFromDelta ex_helpers 1000 ex_appointment ex_server))))
     = [''user-2''] \<and>
   a_provider_id ex_appointment = Some ''prov-2''"
proof -
  have h1: "\<not> isValidUUID ex_helpers (a_current_visit_id ex_appointment)"
    by (simp add: ex_defs)
  have h2: "upsertFromDelta ex_helpers 1000 ex_appointment ex_server =
     (Inr (InsertResult 1), snd (upsertFromDelta ex_helpers 1000 ex_appointment ex_server))"
    by (simp add: prod_eq_iff) (simp add: model_defs ex_defs)
  have u: "a_user_id ex_appointment = ''user-2''" "a_provider_id ex_appointment = Some ''prov-2''"
    "visits (db ex_server) = []"
    by (simp_all add: ex_defs)
  from sync_visit_provider [OF h1 h2]
  show ?thesis using h1 h2 by (auto simp: u)
qed

text \<open>
  Claim C3. \<^verbatim>\<open>Clinic.softDelete(id)\<close> decides on one check, whether a user that is not
  deleted has that clinic id. If one has, it throws, with the number of such users, and the
  whole state, the clinics among it, is as before. If none has, it succeeds, the clinics
  keep their ids and order, every clinic of that id is flagged deleted with the current
  time as \<^verbatim>\<open>deleted_at\<close>, and the users are untouched.
\<close>

theorem clinic_softDelete_guard:
  "(if \<exists>u \<in> set (users (db s)). u_clinic_id u = Some ident \<and> \<not> u_is_deleted u
    then Clinic_softDelete now ident s =
           (Inl (ClinicHasUsers ident (length (clinic_users ident s))), s) \<and>
         0 < length (clinic_users ident s)
    else fst (Clinic_softDelete now ident s) = Inr () \<and>
         map c_id (clinics (db (snd (Clinic_softDelete now ident s)))) = map c_id (clinics (db s)) \<and>
         (\<forall>c \<in> set (clinics (db (snd (Clinic_softDelete now ident s)))).
            c_id c = ident \<longrightarrow> c_is_deleted c \<and> c_deleted_at c = Some now) \<and>
         users (db (snd (Clinic_softDelete now ident s))) = users (db s))"
proof (cases "clinic_users ident s = []")
  case True
  then have none: "\<not> (\<exists>u \<in> set (users (db s)). u_clinic_id u = Some ident \<and> \<not> u_is_deleted u)"
    unfolding clinic_users_empty .
  have marked: "\<forall>c \<in> set (clinics (db (snd (Clinic_softDelete now ident s)))).
            c_id c = ident \<longrightarrow> c_is_deleted c \<and> c_deleted_at c = Some now"
  proof (intro ballI impI)
    fix c
    assume "c \<in> set (clinics (db (snd (Clinic_softDelete now ident s))))" and i: "c_id c = ident"
    then have "c \<in> set (map (\<lambda>c. if c_id c = ident
                       then c\<lparr> c_is_deleted := True, c_deleted_at := Some now \<rparr>
                       else c) (clinics (db s)))"
      by (simp add: softDelete_free [OF True])
    then show "c_is_deleted c \<and> c_deleted_at c = Some now"
      using i by (rule clinic_mark_set)
  qed
  have ids: "map c_id (clinics (db (snd (Clinic_softDelete now ident s)))) = map c_id (clinics (db s))"
    by (simp add: softDelete_free [OF True] clinic_mark_ids del: map_map)
  have rest: "fst (Clinic_softDelete now ident s) = Inr ()"
    "users (db (snd (Clinic_softDelete now ident s))) = users (db s)"
    by (simp_all add: softDelete_free [OF True])
  from none marked ids rest show ?thesis by (simp only: if_False simp_thms)
next
  case False
  then have some: "\<exists>u \<in> set (users (db s)). u_clinic_id u = Some ident \<and> \<not> u_is_deleted u"
    unfolding clinic_users_empty by simp
  from False have "0 < length (clinic_users ident s)" by simp
  with some softDelete_blocked [OF False, of now] show ?thesis by (simp only: if_True simp_thms)
qed

theorem clinic_softDelete_guard_witness:
  "Clinic_softDelete 2000 ''clinic-1'' ex_server = (Inl (ClinicHasUsers ''clinic-1'' 1), ex_server) \<and>
   fst (Clinic_softDelete 2000 ''clinic-2'' ex_server) = Inr () \<and>
   map c_is_deleted (clinics (db (snd (Clinic_softDelete 2000 ''clinic-2'' ex_server)))) = [False, True] \<and>
   map c_deleted_at (clinics (db (snd (Clinic_softDelete 2000 ''clinic-2'' ex_server)))) = [None, Some 2000]"
proof -
  have u1: "length (clinic_users ''clinic-1'' ex_server) = 1"
    by (simp add: clinic_users_def ex_defs)
  have b1: "\<exists>u \<in> set (users (db ex_server)). u_clinic_id u = Some ''clinic-1'' \<and> \<not> u_is_deleted u"
    by (simp add: ex_defs)
  have b2: "\<not> (\<exists>u \<in> set (users (db ex_server)). u_clinic_id u = Some ''clinic-2'' \<and> \<not> u_is_deleted u)"
    by (simp add: ex_defs)
  have e: "map c_is_deleted (clinics (db (snd (Clinic_softDelete 2000 ''clinic-2'' ex_server)))) = [False, True]"
    "map c_deleted_at (clinics (db (snd (Clinic_softDelete 2000 ''clinic-2'' ex_server)))) = [None, Some 2000]"
    by (simp_all add: Clinic_softDelete_def ex_defs)
  from clinic_softDelete_guard [of ex_server "''clinic-1''" 2000]
  have c1: "Clinic_softDelete 2000 ''clinic-1'' ex_server = (Inl (ClinicHasUsers ''clinic-1'' 1), ex_server)"
    by (simp only: b1 if_True u1)
  from clinic_softDelete_guard [of ex_server "''clinic-2''" 2000]
  have c2: "fst (Clinic_softDelete 2000 ''clinic-2'' ex_server) = Inr ()"
    by (simp only: b2 if_False)
  from c1 c2 e show ?thesis by (simp only: simp_thms)
qed

text \<open>
  Claim C6. Soft deletion removes no row. After \<^verbatim>\<open>Appointment.API.softDelete(id)\<close> the
  appointments are as many as before, and each is the row that stood at its place: as it
  was when its id is another, and with only \<^verbatim>\<open>is_deleted\<close>, \<^verbatim>\<open>deleted_at\<close>, \<^verbatim>\<open>updated_at\<close>
  and \<^verbatim>\<open>last_modified\<close> assigned when its id is the given one; the other tables are
  untouched. After \<^verbatim>\<open>Clinic.softDelete(id)\<close> the same holds of the clinics, with only
  \<^verbatim>\<open>is_deleted\<close> and \<^verbatim>\<open>deleted_at\<close> assigned, and only when the call succeeds.
\<close>

theorem soft_delete_frame:
  "length (appointments (db (snd (Appointment_softDelete now i s)))) = length (appointments (db s)) \<and>
   (\<forall>k < length (appointments (db s)).
      appointments (db (snd (Appointment_softDelete now i s))) ! k =
        (if a_id (appointments (db s) ! k) = i
         then (appointments (db s) ! k)\<lparr> a_is_deleted := True, a_deleted_at := Some now,
                                         a_updated_at := now, a_last_modified := now \<rparr>
         else appointments (db s) ! k)) \<and>
   visits (db (snd (Appointment_softDelete now i s))) = visits (db s) \<and>
   clinics (db (snd (Appointment_softDelete now i s))) = clinics (db s) \<and>
   users (db (snd (Appointment_softDelete now i s))) = users (db s) \<and>
   length (clinics (db (snd (Clinic_softDelete now i s)))) = length (clinics (db s)) \<and>
   (\<forall>k < length (clinics (db s)).
      clinics (db (snd (Clinic_softDelete now i s))) ! k =
        (if c_id (clinics (db s) ! k) = i \<and> fst (Clinic_softDelete now i s) = Inr ()
         then (clinics (db s) ! k)\<lparr> c_is_deleted := True, c_deleted_at := Some now \<rparr>
         else clinics (db s) ! k)) \<and>
   appointments (db (snd (Clinic_softDelete now i s))) = appointments (db s) \<and>
   visits (db (snd (Clinic_softDelete now i s))) = visits (db s) \<and>
   users (db (snd (Clinic_softDelete now i s))) = users (db s)"
  by (simp add: Appointment_softDelete_db Clinic_softDelete_clinics Clinic_softDelete_frame)

theorem soft_delete_frame_witness:
  "length (appointments (db (snd (Appointment_softDelete 2000 ''appt-1'' ex_server)))) = 1 \<and>
   appointments (db (snd (Appointment_softDelete 2000 ''appt-1'' ex_server))) ! 0 =
     ex_stored\<lparr> a_is_deleted := True, a_deleted_at := Some 2000,
                 a_updated_at := 2000, a_last_modified := 2000 \<rparr> \<and>
   fst (Clinic_softDelete 2000 ''clinic-2'' ex_server) = Inr () \<and>
   length (clinics (db (snd (Clinic_softDelete 2000 ''clinic-2'' ex_server)))) = 2 \<and>
   clinics (db (snd (Clinic_softDelete 2000 ''clinic-2'' ex_server))) ! 0 = ex_clinic ''clinic-1'' \<and>
   clinics (db (snd (Clinic_softDelete 2000 ''clinic-2'' ex_server))) ! 1 =
     (ex_clinic ''clinic-2'')\<lparr> c_is_deleted := True, c_deleted_at := Some 2000 \<rparr>"
proof -
  have a: "appointments (db ex_server) = [ex_stored]" "a_id ex_stored = ''appt-1''"
    by (simp_all add: ex_defs)
  have c: "clinics (db ex_server) = [ex_clinic ''clinic-1'', ex_clinic ''clinic-2'']"
    "c_id (ex_clinic ''clinic-1'') = ''clinic-1''" "c_id (ex_clinic ''clinic-2'') = ''clinic-2''"
    by (simp_all add: ex_defs)
  have r: "fst (Clinic_softDelete 2000 ''clinic-2'' ex_server) = Inr ()"
    by (simp add: Clinic_softDelete_def ex_defs)
  from soft_delete_frame [of 2000 "''appt-1''" ex_server]
    soft_delete_frame [of 2000 "''clinic-2''" ex_server]
  show ?thesis
    by (simp add: a c r)
qed

text \<open>
  Claim C8. \<^verbatim>\<open>Clinic.save\<close>, the generated identifier not being the id of a stored
  clinic. When the id is undefined or a string of at most 5 characters, the call succeeds
  and appends one clinic, under the generated id and with the given name, the stored
  clinics staying as they are: a short id that is the id of a stored clinic renames
  nothing. When the id is a string of more than 5 characters, the call succeeds, the
  clinics keep their ids, the clinics of that id get the name and nothing else changes;
  when no clinic has that id the state is as before.
\<close>

theorem clinic_save_cases:
  assumes "uuidV1 env (uuid_calls s) \<notin> set (map c_id (clinics (db s)))"
  shows "(ident = None \<or> (\<exists>i. ident = Some i \<and> length i \<le> 5) \<longrightarrow>
      fst (Clinic_save env now ident name s) = Inr () \<and>
      (\<exists>c. clinics (db (snd (Clinic_save env now ident name s))) = clinics (db s) @ [c] \<and>
           c_id c = uuidV1 env (uuid_calls s) \<and> c_name c = Some name \<and> \<not> c_is_deleted c)) \<and>
    (\<forall>i. ident = Some i \<and> 5 < length i \<longrightarrow>
      fst (Clinic_save env now ident name s) = Inr () \<and>
      map c_id (clinics (db (snd (Clinic_save env now ident name s)))) = map c_id (clinics (db s)) \<and>
      (\<forall>k < length (clinics (db s)).
         clinics (db (snd (Clinic_save env now ident name s))) ! k =
           (if c_id (clinics (db s) ! k) = i then (clinics (db s) ! k)\<lparr> c_name := Some name \<rparr>
            else clinics (db s) ! k)) \<and>
      (i \<notin> set (map c_id (clinics (db s))) \<longrightarrow> snd (Clinic_save env now ident name s) = s))"
proof (rule conjI)
  show "ident = None \<or> (\<exists>i. ident = Some i \<and> length i \<le> 5) \<longrightarrow>
      fst (Clinic_save env now ident name s) = Inr () \<and>
      (\<exists>c. clinics (db (snd (Clinic_save env now ident name s))) = clinics (db s) @ [c] \<and>
           c_id c = uuidV1 env (uuid_calls s) \<and> c_name c = Some name \<and> \<not> c_is_deleted c)"
  proof
    assume "ident = None \<or> (\<exists>i. ident = Some i \<and> length i \<le> 5)"
    then have c: "creates_clinic ident"
      by (auto simp: creates_clinic_def)
    show "fst (Clinic_save env now ident name s) = Inr () \<and>
      (\<exists>c. clinics (db (snd (Clinic_save env now ident name s))) = clinics (db s) @ [c] \<and>
           c_id c = uuidV1 env (uuid_calls s) \<and> c_name c = Some name \<and> \<not> c_is_deleted c)"
      by (simp add: Clinic_save_insert [OF c assms] clinic_values_def)
  qed
next
  show "\<forall>i. ident = Some i \<and> 5 < length i \<longrightarrow>
      fst (Clinic_save env now ident name s) = Inr () \<and>
      map c_id (clinics (db (snd (Clinic_save env now ident name s)))) = map c_id (clinics (db s)) \<and>
      (\<forall>k < length (clinics (db s)).
         clinics (db (snd (Clinic_save env now ident name s))) ! k =
           (if c_id (clinics (db s) ! k) = i then (clinics (db s) ! k)\<lparr> c_name := Some name \<rparr>
            else clinics (db s) ! k)) \<and>
      (i \<notin> set (map c_id (clinics (db s))) \<longrightarrow> snd (Clinic_save env now ident name s) = s)"
  proof (rule allI, rule impI)
    fix i
    assume "ident = Some i \<and> 5 < length i"
    then have ident: "ident = Some i" and long: "5 < length i" by simp_all
    note upd = Clinic_save_update [OF long, of env now name s]
    have 1: "fst (Clinic_save env now ident name s) = Inr ()"
      by (simp add: ident upd)
    have 2: "map c_id (clinics (db (snd (Clinic_save env now ident name s)))) =
        map c_id (clinics (db s))"
      by (simp add: ident upd rename_ids del: map_map)
    have 3: "\<forall>k < length (clinics (db s)).
         clinics (db (snd (Clinic_save env now ident name s))) ! k =
           (if c_id (clinics (db s) ! k) = i then (clinics (db s) ! k)\<lparr> c_name := Some name \<rparr>
            else clinics (db s) ! k)"
      by (simp add: ident upd)
    have 4: "i \<notin> set (map c_id (clinics (db s))) \<longrightarrow> snd (Clinic_save env now ident name s) = s"
      by (simp add: ident upd rename_absent)
    from 1 2 3 4
    show "fst (Clinic_save env now ident name s) = Inr () \<and>
      map c_id (clinics (db (snd (Clinic_save env now ident name s)))) = map c_id (clinics (db s)) \<and>
      (\<forall>k < length (clinics (db s)).
         clinics (db (snd (Clinic_save env now ident name s))) ! k =
           (if c_id (clinics (db s) ! k) = i then (clinics (db s) ! k)\<lparr> c_name := Some name \<rparr>
            else clinics (db s) ! k)) \<and>
      (i \<notin> set (map c_id (clinics (db s))) \<longrightarrow> snd (Clinic_save env now ident name s) = s)"
      by (intro conjI)
  qed
qed

theorem clinic_save_cases_witness:
  "uuidV1 ex_helpers (uuid_calls ex_short) \<notin> set (map c_id (clinics (db ex_short))) \<and>
   fst (Clinic_save ex_helpers 3000 (Some ''c-1'') ''New name'' ex_short) = Inr () \<and>
   map c_id (clinics (db (snd (Clinic_save ex_helpers 3000 (Some ''c-1'') ''New name'' ex_short)))) =
     [''c-1'', ''clinic-2'', ''00000000-0000-1000-8000-000000000000''] \<and>
   map c_name (clinics (db (snd (Clinic_save ex_helpers 3000 (Some ''c-1'') ''New name'' ex_short)))) =
     [Some ''Old name'', Some ''Old name'', Some ''New name''] \<and>
   map c_name (clinics (db (snd (Clinic_save ex_helpers 3000 (Some ''clinic-2'') ''New name'' ex_short)))) =
     [Some ''Old name'', Some ''New name''] \<and>
   snd (Clinic_save ex_helpers 3000 (Some ''clinic-9'') ''New name'' ex_short) = ex_short"
proof -
  have h: "uuidV1 ex_helpers (uuid_calls ex_short) \<notin> set (map c_id (clinics (db ex_short)))"
    by (simp add: ex_short_def ex_defs)
  have u: "uuidV1 ex_helpers (uuid_calls ex_short) = ''00000000-0000-1000-8000-000000000000''"
    by (simp add: ex_short_def ex_defs)
  have cs: "clinics (db ex_short) = [ex_clinic ''c-1'', ex_clinic ''clinic-2'']"
    by (simp add: ex_short_def)
  have f: "c_id (ex_clinic j) = j" "c_name (ex_clinic j) = Some ''Old name''" for j
    by (simp_all add: ex_clinic_def)
  from clinic_save_cases [OF h, of "Some ''c-1''" 3000 "''New name''"]
  have a: "fst (Clinic_save ex_helpers 3000 (Some ''c-1'') ''New name'' ex_short) = Inr ()"
    "map c_id (clinics (db (snd (Clinic_save ex_helpers 3000 (Some ''c-1'') ''New name'' ex_short)))) =
     [''c-1'', ''clinic-2'', ''00000000-0000-1000-8000-000000000000'']"
    "map c_name (clinics (db (snd (Clinic_save ex_helpers 3000 (Some ''c-1'') ''New name'' ex_short)))) =
     [Some ''Old name'', Some ''Old name'', Some ''New name'']"
    by (auto simp: cs f u)
  have b: "map c_name (clinics (db (snd (Clinic_save ex_helpers 3000 (Some ''clinic-2'') ''New name'' ex_short)))) =
     [Some ''Old name'', Some ''New name'']"
    by (simp add: Clinic_save_def cs f)
  from clinic_save_cases [OF h, of "Some ''clinic-9''" 3000 "''New name''"]
  have d: "snd (Clinic_save ex_helpers 3000 (Some ''clinic-9'') ''New name'' ex_short) = ex_short"
    by (simp add: cs f)
  from h a b d show ?thesis by simp
qed

text \<open>
  Claim C9. The reads filter on \<^verbatim>\<open>is_deleted = false\<close>: no row of
  \<^verbatim>\<open>Appointment.API.getAll\<close> or \<^verbatim>\<open>Clinic.getAll\<close> is deleted, and a row that
  \<^verbatim>\<open>getById(id)\<close> returns has that id and is not deleted. After
  \<^verbatim>\<open>Appointment.API.softDelete(id)\<close>, \<^verbatim>\<open>getById(id)\<close> finds no row and no row of
  \<^verbatim>\<open>getAll\<close> has that id, though the table has the ids it had; after a successful
  \<^verbatim>\<open>Clinic.softDelete(id)\<close> no row of \<^verbatim>\<open>Clinic.getAll\<close> has that id, though the table has
  the ids it had.
\<close>

theorem soft_deleted_hidden:
  "(\<forall>r \<in> set (Appointment_getAll s). \<not> a_is_deleted r) \<and>
   (\<forall>c \<in> set (Clinic_getAll s). \<not> c_is_deleted c) \<and>
   (\<forall>r. Appointment_getById i s = Some r \<longrightarrow> a_id r = i \<and> \<not> a_is_deleted r) \<and>
   Appointment_getById i (snd (Appointment_softDelete now i s)) = None \<and>
   i \<notin> set (map a_id (Appointment_getAll (snd (Appointment_softDelete now i s)))) \<and>
   map a_id (appointments (db (snd (Appointment_softDelete now i s)))) =
     map a_id (appointments (db s)) \<and>
   (fst (Clinic_softDelete now i s) = Inr () \<longrightarrow>
      i \<notin> set (map c_id (Clinic_getAll (snd (Clinic_softDelete now i s)))) \<and>
      map c_id (clinics (db (snd (Clinic_softDelete now i s)))) = map c_id (clinics (db s)))"
proof (intro conjI allI impI)
  show "\<forall>r \<in> set (Appointment_getAll s). \<not> a_is_deleted r"
    by (simp add: Appointment_getAll_def)
  show "\<forall>c \<in> set (Clinic_getAll s). \<not> c_is_deleted c"
    by (simp add: Clinic_getAll_def)
  show "Appointment_getById i (snd (Appointment_softDelete now i s)) = None"
    by (simp only: Appointment_getById_def Appointment_softDelete_rows appointment_mark_hidden
        executeTakeFirst_def list.case)
  show "i \<notin> set (map a_id (Appointment_getAll (snd (Appointment_softDelete now i s))))"
    by (simp only: Appointment_getAll_def Appointment_softDelete_rows)
       (rule appointment_mark_getAll)
  show "map a_id (appointments (db (snd (Appointment_softDelete now i s)))) =
     map a_id (appointments (db s))"
    by (simp only: Appointment_softDelete_rows appointment_mark_ids)
next
  fix r assume "Appointment_getById i s = Some r"
  then show "a_id r = i" and "\<not> a_is_deleted r"
    using getById_Some by blast+
next
  assume ok: "fst (Clinic_softDelete now i s) = Inr ()"
  have c: "clinics (db (snd (Clinic_softDelete now i s))) =
     map (\<lambda>c. if c_id c = i then c\<lparr> c_is_deleted := True, c_deleted_at := Some now \<rparr> else c)
         (clinics (db s))"
    by (simp add: Clinic_softDelete_clinics ok)
  show "i \<notin> set (map c_id (Clinic_getAll (snd (Clinic_softDelete now i s))))"
    unfolding Clinic_getAll_def c by (rule clinic_mark_getAll)
  show "map c_id (clinics (db (snd (Clinic_softDelete now i s)))) = map c_id (clinics (db s))"
    unfolding c by (rule clinic_mark_ids)
qed

theorem soft_deleted_hidden_witness:
  "Appointment_getById ''appt-1'' ex_live = Some ex_appointment \<and>
   Appointment_getById ''appt-1'' (snd (Appointment_softDelete 2000 ''appt-1'' ex_live)) = None \<and>
   map a_id (appointments (db (snd (Appointment_softDelete 2000 ''appt-1'' ex_live)))) = [''appt-1''] \<and>
   fst (Clinic_softDelete 2000 ''clinic-2'' ex_server) = Inr () \<and>
   map c_id (Clinic_getAll ex_server) = [''clinic-1'', ''clinic-2''] \<and>
   ''clinic-2'' \<notin> set (map c_id (Clinic_getAll (snd (Clinic_softDelete 2000 ''clinic-2'' ex_server)))) \<and>
   map c_id (clinics (db (snd (Clinic_softDelete 2000 ''clinic-2'' ex_server)))) = [''clinic-1'', ''clinic-2'']"
proof -
  have rows: "appointments (db ex_live) = [ex_appointment]"
    by (simp add: ex_live_def)
  have f: "a_id ex_appointment = ''appt-1''" "a_is_deleted ex_appointment = False"
    by (simp_all add: ex_appointment_def)
  have g: "Appointment_getById ''appt-1'' ex_live = Some ex_appointment"
    by (simp add: Appointment_getById_def executeTakeFirst_def rows f)
  have ids: "map a_id (appointments (db ex_live)) = [''appt-1'']"
    by (simp add: rows f)
  have r: "fst (Clinic_softDelete 2000 ''clinic-2'' ex_server) = Inr ()"
    by (simp add: Clinic_softDelete_def ex_defs)
  have c: "map c_id (clinics (db ex_server)) = [''clinic-1'', ''clinic-2'']"
    "map c_id (Clinic_getAll ex_server) = [''clinic-1'', ''clinic-2'']"
    by (simp_all add: Clinic_getAll_def ex_defs)
  from soft_deleted_hidden [of ex_live "''appt-1''" 2000]
  have a: "Appointment_getById ''appt-1'' (snd (Appointment_softDelete 2000 ''appt-1'' ex_live)) = None"
    "map a_id (appointments (db (snd (Appointment_softDelete 2000 ''appt-1'' ex_live)))) = [''appt-1'']"
    by (simp_all add: ids)
  from soft_deleted_hidden [of ex_server "''clinic-2''" 2000] r
  have b: "''clinic-2'' \<notin> set (map c_id (Clinic_getAll (snd (Clinic_softDelete 2000 ''clinic-2'' ex_server))))"
    "map c_id (clinics (db (snd (Clinic_softDelete 2000 ''clinic-2'' ex_server)))) = [''clinic-1'', ''clinic-2'']"
    by (simp_all add: c)
  from g a r c(2) b show ?thesis by simp
qed

end
